theory Spec2Isabelle
  imports Complex_Main
begin

section \<open>Data model of \<open>script/get_del_Q.py\<close>\<close>

text \<open>
  The script reads two or three POSCAR files through pymatgen and does array arithmetic
  with numpy. A float64 is modelled by an exact real number; a non-finite float (numpy's
  \<open>nan\<close> and \<open>inf\<close>, which numpy produces with a warning instead of raising) is the
  value \<open>None\<close> of \<open>npfloat\<close>. Rounding is outside this model of \<open>main\<close>; the
  wrap of line 35 has a second model, on float64 with its rounding.

  An array of shape \<open>(N, 3)\<close> is a list of rows, each row a triple; the lattice matrix is
  the triple of its three rows.
\<close>

type_synonym vec3 = "real \<times> real \<times> real"
type_synonym mat3 = "vec3 \<times> vec3 \<times> vec3"
type_synonym npfloat = "real option"

text \<open>
  What the script reads of a pymatgen \<open>Structure\<close>: \<open>frac_coords\<close>,
  \<open>lattice.matrix\<close> and \<open>species\<close>. The element type \<open>'e\<close> and the table
  \<open>atomic_mass\<close> belong to pymatgen; the table is a parameter of \<open>main\<close>.
\<close>

record 'e struct =
  frac_coords :: "vec3 list"
  lattice_matrix :: mat3
  species :: "'e list"

record 'e poscar =
  struct_of :: "'e struct"
  site_symbols :: "string list"

text \<open>
  \<open>argparse\<close>'s namespace. \<open>--med\<close> has \<open>nargs="?"\<close> and no \<open>const\<close>: a bare
  \<open>-m\<close> stores Python's \<open>None\<close>, here \<open>None\<close>; an absent \<open>-m\<close> stores the default.
\<close>

record args =
  init :: string
  fin :: string
  med :: "string option"
  no_weight :: bool

definition default_args :: args where
  "default_args =
     \<lparr>init = ''./POSCAR_i'', fin = ''./POSCAR_f'', med = Some ''unassigned'',
      no_weight = False\<rparr>"

datatype error =
    FileError string  \<comment> \<open>\<open>Poscar.from_file\<close>: the path is missing or does not parse\<close>
  | ValueError        \<comment> \<open>numpy: operands could not be broadcast together\<close>
  | TypeError         \<comment> \<open>\<open>np.average\<close>: shapes of the array and the weights differ\<close>
  | ZeroDivisionError \<comment> \<open>\<open>np.average\<close>: the weights sum to zero\<close>

text \<open>One call of \<open>print(label, value)\<close>.\<close>

datatype line = Print string npfloat

section \<open>The numpy operations the script uses\<close>

subsection \<open>Arithmetic on floats that may be non-finite\<close>

text \<open>
  Every operation of the script that receives a non-finite operand returns a non-finite
  result (no non-finite value is ever a divisor: the divisors are norms, the number of
  atoms and a sum of square roots). Division by zero gives \<open>nan\<close> or \<open>inf\<close>.
\<close>

fun fadd :: "npfloat \<Rightarrow> npfloat \<Rightarrow> npfloat" where
  "fadd (Some x) (Some y) = Some (x + y)"
| "fadd _ _ = None"

fun fmul :: "npfloat \<Rightarrow> npfloat \<Rightarrow> npfloat" where
  "fmul (Some x) (Some y) = Some (x * y)"
| "fmul _ _ = None"

fun fdiv :: "npfloat \<Rightarrow> npfloat \<Rightarrow> npfloat" where
  "fdiv (Some x) (Some y) = (if y = 0 then None else Some (x / y))"
| "fdiv _ _ = None"

definition fsum :: "npfloat list \<Rightarrow> npfloat" where
  "fsum xs = foldr fadd xs (Some 0)"

definition np_sqrt :: "real \<Rightarrow> npfloat" where
  \<comment> \<open>\<open>np.sqrt\<close> of a negative number is \<open>nan\<close>\<close>
  "np_sqrt x = (if x < 0 then None else Some (sqrt x))"

subsection \<open>Broadcasting\<close>

text \<open>
  A binary operation on two arrays whose first axes have lengths \<open>n\<close> and \<open>m\<close>: numpy
  pairs the rows when \<open>n = m\<close>, repeats the single row when one length is 1, and raises
  otherwise.
\<close>

definition broadcast :: "('a \<Rightarrow> 'b \<Rightarrow> 'c) \<Rightarrow> 'a list \<Rightarrow> 'b list \<Rightarrow> error + 'c list" where
  "broadcast f a b =
     (if length a = length b then Inr (map2 f a b)
      else if length b = 1 then Inr (map (\<lambda>x. f x (hd b)) a)
      else if length a = 1 then Inr (map (f (hd a)) b)
      else Inl ValueError)"

subsection \<open>Vectors and rows\<close>

fun vsub :: "vec3 \<Rightarrow> vec3 \<Rightarrow> vec3" where
  "vsub (x, y, z) (x', y', z') = (x - x', y - y', z - z')"

fun vsquare :: "vec3 \<Rightarrow> vec3" where
  "vsquare (x, y, z) = (x\<^sup>2, y\<^sup>2, z\<^sup>2)"

fun vscale :: "real \<Rightarrow> vec3 \<Rightarrow> vec3" where
  "vscale m (x, y, z) = (m * x, m * y, m * z)"

fun vtotal :: "vec3 \<Rightarrow> real" where
  "vtotal (x, y, z) = x + y + z"

fun dot3 :: "vec3 \<Rightarrow> vec3 \<Rightarrow> real" where
  "dot3 (x, y, z) (x', y', z') = x * x' + y * y' + z * z'"

fun norm3 :: "vec3 \<Rightarrow> real" where
  "norm3 (x, y, z) = sqrt (x\<^sup>2 + y\<^sup>2 + z\<^sup>2)"

fun vecmat :: "vec3 \<Rightarrow> mat3 \<Rightarrow> vec3" where
  "vecmat (x, y, z) ((a11, a12, a13), (a21, a22, a23), (a31, a32, a33)) =
     (x * a11 + y * a21 + z * a31,
      x * a12 + y * a22 + z * a32,
      x * a13 + y * a23 + z * a33)"

subsection \<open>The minimum-image wrap\<close>

definition mod_one :: "real \<Rightarrow> real" where
  \<comment> \<open>\<open>x % 1\<close>: the floored remainder, with the sign of the divisor\<close>
  "mod_one x = x - of_int \<lfloor>x\<rfloor>"

definition wrap :: "real \<Rightarrow> real" where
  \<comment> \<open>one entry of \<open>(delta_R + 0.5) % 1 - 0.5\<close>, over exact reals; \<open>wrap64\<close> below
      is the same line on float64\<close>
  "wrap x = mod_one (x + 1/2) - 1/2"

fun wrap3 :: "vec3 \<Rightarrow> vec3" where
  "wrap3 (x, y, z) = (wrap x, wrap y, wrap z)"

subsection \<open>Line 35 on float64\<close>

text \<open>
  The definitions above compute with exact reals. For the claim on idempotence, which
  rounding decides, line 35 is modelled once more on IEEE 754 binary64 values. A finite
  float64 is the real number it denotes (the two zeros are equal); \<open>None\<close> is a
  non-finite result.

  \<open>f64_round\<close> rounds a real number to the nearest float64, ties to the even
  significand: the exponent of the binade of \<open>r\<close>, not below that of the subnormal
  numbers, gives the spacing \<open>f64_ulp r\<close> of the floats around \<open>r\<close>, and a
  result of magnitude \<open>2 powi 1024\<close> or more overflows to infinity. A real number is a
  float64 when rounding leaves it as it is.
\<close>

definition f64_exponent :: "real \<Rightarrow> int" where
  "f64_exponent r = max \<lfloor>log 2 \<bar>r\<bar>\<rfloor> (- 1022)"

definition f64_ulp :: "real \<Rightarrow> real" where
  "f64_ulp r = 2 powi (f64_exponent r - 52)"

definition round_even :: "real \<Rightarrow> int" where
  "round_even q =
     (let n = \<lfloor>q\<rfloor>; d = q - of_int n in
      if d < 1/2 then n else if 1/2 < d then n + 1 else if even n then n else n + 1)"

definition rounded :: "real \<Rightarrow> real" where
  "rounded r = of_int (round_even (r / f64_ulp r)) * f64_ulp r"

definition f64_huge :: real where
  "f64_huge = 2 powi 1024"

definition f64_round :: "real \<Rightarrow> real option" where
  "f64_round r =
     (if r = 0 then Some 0
      else let v = of_int (round_even (r / f64_ulp r)) * f64_ulp r in
        if f64_huge \<le> \<bar>v\<bar> then None else Some v)"

definition is_f64 :: "real \<Rightarrow> bool" where
  "is_f64 r \<longleftrightarrow> f64_round r = Some r"

text \<open>
  \<open>x % 1\<close> as numpy computes it: the remainder \<open>fmod(x, 1)\<close> of C, which is exact
  and has the sign of \<open>x\<close>, and then, when it is negative, the float64 sum of it and 1.
\<close>

definition fmod_one :: "real \<Rightarrow> real" where
  "fmod_one a = a - of_int (if 0 \<le> a then \<lfloor>a\<rfloor> else \<lceil>a\<rceil>)"

definition mod64_one :: "real \<Rightarrow> real option" where
  "mod64_one a = (let m = fmod_one a in if m < 0 then f64_round (m + 1) else Some m)"

text \<open>
  One entry of \<open>(delta_R + 0.5) % 1 - 0.5\<close>: the float64 sum, the remainder, the
  float64 difference. A non-finite intermediate value gives a non-finite result.
\<close>

definition wrap64 :: "real \<Rightarrow> real option" where
  "wrap64 x =
     (case f64_round (x + 1/2) of
        None \<Rightarrow> None
      | Some s \<Rightarrow>
          (case mod64_one s of
             None \<Rightarrow> None
           | Some m \<Rightarrow> f64_round (m - 1/2)))"

subsection \<open>Whole-array operations\<close>

definition np_sub :: "vec3 list \<Rightarrow> vec3 list \<Rightarrow> error + vec3 list" where
  "np_sub a b = broadcast vsub a b"

definition np_dot :: "vec3 list \<Rightarrow> mat3 \<Rightarrow> vec3 list" where
  \<comment> \<open>\<open>np.dot\<close> of an \<open>(N, 3)\<close> array and a \<open>(3, 3)\<close> matrix\<close>
  "np_dot a l = map (\<lambda>r. vecmat r l) a"

definition np_square :: "vec3 list \<Rightarrow> vec3 list" where
  "np_square a = map vsquare a"

definition np_mul_col :: "real list \<Rightarrow> vec3 list \<Rightarrow> error + vec3 list" where
  \<comment> \<open>\<open>masses[:, None] * a\<close>\<close>
  "np_mul_col ms a = broadcast vscale ms a"

definition np_sum :: "vec3 list \<Rightarrow> real" where
  \<comment> \<open>\<open>a.sum()\<close> over both axes\<close>
  "np_sum a = sum_list (map vtotal a)"

definition einsum_rows :: "vec3 list \<Rightarrow> vec3 list \<Rightarrow> error + real list" where
  \<comment> \<open>\<open>np.einsum("ij,ij->i", a, b)\<close>\<close>
  "einsum_rows a b = broadcast dot3 a b"

definition linalg_norm :: "vec3 list \<Rightarrow> real list" where
  \<comment> \<open>\<open>np.linalg.norm(a, axis=1)\<close>\<close>
  "linalg_norm a = map norm3 a"

definition np_divide :: "npfloat list \<Rightarrow> real list \<Rightarrow> error + npfloat list" where
  "np_divide a b = broadcast (\<lambda>x y. fdiv x (Some y)) a b"

definition np_average :: "npfloat list \<Rightarrow> npfloat" where
  \<comment> \<open>without weights: \<open>a.mean()\<close>, which is \<open>nan\<close> for an empty array\<close>
  "np_average a = fdiv (fsum a) (Some (real (length a)))"

definition np_average_weights :: "npfloat list \<Rightarrow> npfloat list \<Rightarrow> error + npfloat" where
  "np_average_weights a w =
     (if length a \<noteq> length w then Inl TypeError
      else let scl = fsum w in
        if scl = Some 0 then Inl ZeroDivisionError
        else Inr (fdiv (fsum (map2 fmul a w)) scl))"

section \<open>The script\<close>

definition py_format :: "string option \<Rightarrow> string" where
  \<comment> \<open>\<open>"{}".format(i_path)\<close>\<close>
  "py_format p = (case p of None \<Rightarrow> ''None'' | Some s \<Rightarrow> s)"

text \<open>The file system is a map from paths to the POSCAR files that parse.\<close>

definition read_poscar ::
  "(string \<rightharpoonup> 'e poscar) \<Rightarrow> string option \<Rightarrow> bool \<Rightarrow> error + ('e struct \<times> string list option)"
where
  "read_poscar fs i_path l_get_sorted_symbols =
     (case fs (py_format i_path) of
        None \<Rightarrow> Inl (FileError (py_format i_path))
      | Some poscar \<Rightarrow>
          let struct = struct_of poscar in
          if l_get_sorted_symbols then Inr (struct, Some (site_symbols poscar))
          else Inr (struct, None))"

text \<open>
  Lines 34 to 37 and 52 to 54 of \<open>main\<close> are the same three statements, on the final
  and on the medium structure: the difference of the fractional coordinates, the wrap,
  the product with the lattice.
\<close>

definition displacement :: "vec3 list \<Rightarrow> vec3 list \<Rightarrow> mat3 \<Rightarrow> error + vec3 list" where
  "displacement coords_b coords_a l =
     (case np_sub coords_b coords_a of
        Inl e \<Rightarrow> Inl e
      | Inr d \<Rightarrow> Inr (np_dot (map wrap3 d) l))"

text \<open>Lines 42 to 46: the sum under the square root.\<close>

definition delta_Q2 :: "bool \<Rightarrow> real list \<Rightarrow> vec3 list \<Rightarrow> error + vec3 list" where
  "delta_Q2 nw masses delta_R =
     (if nw then Inr (np_square delta_R) else np_mul_col masses (np_square delta_R))"

text \<open>Lines 57 to 66: the projection of the medium structure, up to the average.\<close>

definition projection ::
  "bool \<Rightarrow> real list \<Rightarrow> vec3 list \<Rightarrow> vec3 list \<Rightarrow> error + npfloat" where
  "projection nw masses delta_R delta_M =
     (case einsum_rows delta_R delta_M of
        Inl e \<Rightarrow> Inl e
      | Inr dots \<Rightarrow>
     (let norm = linalg_norm delta_R in
      case np_divide (map Some dots) norm of
        Inl e \<Rightarrow> Inl e
      | Inr delta_M_proj \<Rightarrow>
     (case np_divide delta_M_proj norm of
        Inl e \<Rightarrow> Inl e
      | Inr frac_delta_M_proj \<Rightarrow>
          if nw then Inr (np_average frac_delta_M_proj)
          else np_average_weights frac_delta_M_proj (map np_sqrt masses))))"

text \<open>
  \<open>main\<close> returns the lines it printed and the exception that ended it, if one did. The
  first line is printed before the medium structure is read.
\<close>

definition main ::
  "('e \<Rightarrow> real) \<Rightarrow> (string \<rightharpoonup> 'e poscar) \<Rightarrow> args \<Rightarrow> line list \<times> error option" where
  "main atomic_mass fs a =
     (case read_poscar fs (Some (init a)) False of
        Inl e \<Rightarrow> ([], Some e)
      | Inr (struct_i, _) \<Rightarrow>
     (case read_poscar fs (Some (fin a)) True of
        Inl e \<Rightarrow> ([], Some e)
      | Inr (struct_f, sorted_symbols) \<Rightarrow>
     (let lattice = lattice_matrix struct_i in
      case displacement (frac_coords struct_f) (frac_coords struct_i) lattice of
        Inl e \<Rightarrow> ([], Some e)
      | Inr delta_R \<Rightarrow>
     (let masses = map atomic_mass (species struct_i) in
      case delta_Q2 (no_weight a) masses delta_R of
        Inl e \<Rightarrow> ([], Some e)
      | Inr dq2 \<Rightarrow>
     (let delta_Q = np_sqrt (np_sum dq2);
          out = [Print ''Delta Q:'' delta_Q] in
      if med a \<noteq> Some ''unassigned'' then
        (case read_poscar fs (med a) False of
           Inl e \<Rightarrow> (out, Some e)
         | Inr (struct_m, _) \<Rightarrow>
        (case displacement (frac_coords struct_m) (frac_coords struct_i) lattice of
           Inl e \<Rightarrow> (out, Some e)
         | Inr delta_M \<Rightarrow>
        (case projection (no_weight a) masses delta_R delta_M of
           Inl e \<Rightarrow> (out, Some e)
         | Inr res \<Rightarrow>
             (out @ [Print ''Projected delta Q:'' (fmul delta_Q res),
                     Print ''Fractional displacement:'' res], None))))
      else (out, None))))))"

section \<open>The quantities the specification names\<close>

text \<open>
  Section 4.2 of the specification, for one atom: the raw difference of the fractional
  coordinates, the wrap of each component, the product of that row with the lattice.
\<close>

definition min_image :: "mat3 \<Rightarrow> vec3 \<Rightarrow> vec3 \<Rightarrow> vec3" where
  "min_image l a b = vecmat (wrap3 (vsub b a)) l"

definition atoms :: "'e struct \<Rightarrow> nat" where
  "atoms s = length (frac_coords s)"

text \<open>pymatgen keeps one species for each site.\<close>

definition well_formed :: "'e struct \<Rightarrow> bool" where
  "well_formed s \<longleftrightarrow> length (species s) = length (frac_coords s)"

text \<open>
  \<open>delta_r s t i\<close> is the displacement of atom \<open>i\<close> from the structure \<open>s\<close> to the
  structure \<open>t\<close>, in the lattice of \<open>s\<close>; \<open>mass\<close> is the mass of atom \<open>i\<close> of \<open>s\<close>.
\<close>

definition delta_r :: "'e struct \<Rightarrow> 'e struct \<Rightarrow> nat \<Rightarrow> vec3" where
  "delta_r s t i = min_image (lattice_matrix s) (frac_coords s ! i) (frac_coords t ! i)"

definition mass :: "('e \<Rightarrow> real) \<Rightarrow> 'e struct \<Rightarrow> nat \<Rightarrow> real" where
  "mass atomic_mass s i = atomic_mass (species s ! i)"

text \<open>Section 4.3: the two formulas for delta Q.\<close>

definition spec_delta_Q :: "bool \<Rightarrow> ('e \<Rightarrow> real) \<Rightarrow> 'e struct \<Rightarrow> 'e struct \<Rightarrow> real" where
  "spec_delta_Q nw atomic_mass s t =
     (if nw then sqrt (\<Sum>i<atoms s. (norm3 (delta_r s t i))\<^sup>2)
      else sqrt (\<Sum>i<atoms s. mass atomic_mass s i * (norm3 (delta_r s t i))\<^sup>2))"

text \<open>
  Section 4.4, steps 3 to 5: the projection of \<open>dm\<close> on \<open>dr\<close> divided by the norm of
  \<open>dr\<close>, divided by that norm again; then the mean over the atoms, or the mean with
  the square roots of the masses as weights.
\<close>

definition spec_fraction :: "vec3 \<Rightarrow> vec3 \<Rightarrow> real" where
  "spec_fraction dr dm = dot3 dm dr / norm3 dr / norm3 dr"

definition spec_average ::
  "bool \<Rightarrow> ('e \<Rightarrow> real) \<Rightarrow> 'e struct \<Rightarrow> 'e struct \<Rightarrow> 'e struct \<Rightarrow> real" where
  "spec_average nw atomic_mass s t m =
     (if nw then
        (\<Sum>i<atoms s. spec_fraction (delta_r s t i) (delta_r s m i)) / real (atoms s)
      else
        (\<Sum>i<atoms s. sqrt (mass atomic_mass s i)
            * spec_fraction (delta_r s t i) (delta_r s m i))
        / (\<Sum>i<atoms s. sqrt (mass atomic_mass s i)))"

text \<open>The file at a path parses to a POSCAR of the structure \<open>s\<close>.\<close>

definition holds :: "(string \<rightharpoonup> 'e poscar) \<Rightarrow> string \<Rightarrow> 'e struct \<Rightarrow> bool" where
  "holds fs path s \<longleftrightarrow> map_option struct_of (fs path) = Some s"

text \<open>The per-atom value of line 61, as the code computes it.\<close>

definition fraction :: "vec3 \<Rightarrow> vec3 \<Rightarrow> npfloat" where
  "fraction dr dm = fdiv (fdiv (Some (dot3 dr dm)) (Some (norm3 dr))) (Some (norm3 dr))"

text \<open>The invocation with initial and final structure exchanged.\<close>

definition swapped :: "args \<Rightarrow> args" where
  "swapped a = a\<lparr>init := fin a, fin := init a\<rparr>"

text \<open>
  The array \<open>delta_R\<close> of the code when both structures have the same number of atoms,
  the array \<open>masses\<close>, and the sum under the square root of line 46.
\<close>

definition displacements :: "'e struct \<Rightarrow> 'e struct \<Rightarrow> vec3 list" where
  "displacements s t = map (delta_r s t) [0..<atoms s]"

definition masses_of :: "('e \<Rightarrow> real) \<Rightarrow> 'e struct \<Rightarrow> real list" where
  "masses_of atomic_mass s = map atomic_mass (species s)"

definition total :: "bool \<Rightarrow> ('e \<Rightarrow> real) \<Rightarrow> 'e struct \<Rightarrow> 'e struct \<Rightarrow> real" where
  "total nw atomic_mass s t =
     (if nw then (\<Sum>i<atoms s. (norm3 (delta_r s t i))\<^sup>2)
      else (\<Sum>i<atoms s. mass atomic_mass s i * (norm3 (delta_r s t i))\<^sup>2))"

text \<open>
  A file system in which some files have another lattice: \<open>ls\<close> gives the new lattice of
  each path it is defined on.
\<close>

definition with_lattice :: "mat3 \<Rightarrow> 'e poscar \<Rightarrow> 'e poscar" where
  "with_lattice l p = p\<lparr>struct_of := (struct_of p)\<lparr>lattice_matrix := l\<rparr>\<rparr>"

definition relattice ::
  "(string \<rightharpoonup> mat3) \<Rightarrow> (string \<rightharpoonup> 'e poscar) \<Rightarrow> (string \<rightharpoonup> 'e poscar)" where
  "relattice ls fs path =
     (case ls path of None \<Rightarrow> fs path | Some l \<Rightarrow> map_option (with_lattice l) (fs path))"

text \<open>
  The per-atom values of line 61 as an array, when the three structures have the same
  number of atoms.
\<close>

definition fractions :: "'e struct \<Rightarrow> 'e struct \<Rightarrow> 'e struct \<Rightarrow> npfloat list" where
  "fractions s t m = map (\<lambda>i. fraction (delta_r s t i) (delta_r s m i)) [0..<atoms s]"





section \<open>Example inputs\<close>

text \<open>
  Scenario A of the specification: a cubic cell of 10 angstrom, a carbon atom of mass 12
  that moves by the fractional vector (0.1, 0, 0) from \<open>ex_i\<close> to \<open>ex_f\<close>, and a second
  atom of mass 1 that stays. In \<open>ex_g\<close> the second atom moves too; \<open>ex_m\<close> lies a half
  and a quarter of the way from \<open>ex_i\<close> to \<open>ex_g\<close>, \<open>ex_h\<close> halfway.
\<close>

definition ex_mass :: "string \<Rightarrow> real" where
  "ex_mass e = (if e = ''C'' then 12 else 1)"

definition cubic :: "real \<Rightarrow> mat3" where
  "cubic c = ((c, 0, 0), (0, c, 0), (0, 0, c))"

definition sheared :: mat3 where
  "sheared = ((1, 0, 0), (1, 1, 0), (0, 0, 1))"

definition ex_struct :: "vec3 list \<Rightarrow> mat3 \<Rightarrow> string list \<Rightarrow> string struct" where
  "ex_struct xs l sp = \<lparr>frac_coords = xs, lattice_matrix = l, species = sp\<rparr>"

definition poscar_of :: "string struct \<Rightarrow> string poscar" where
  "poscar_of s = \<lparr>struct_of = s, site_symbols = remdups (species s)\<rparr>"

definition ex_i :: "string struct" where
  "ex_i = ex_struct [(0, 0, 0), (1/2, 1/2, 1/2)] (cubic 10) [''C'', ''H'']"

definition ex_f :: "string struct" where
  "ex_f = ex_struct [(1/10, 0, 0), (1/2, 1/2, 1/2)] (cubic 10) [''C'', ''H'']"

definition ex_g :: "string struct" where
  "ex_g = ex_struct [(1/10, 0, 0), (1/2, 7/10, 1/2)] (cubic 10) [''C'', ''H'']"

definition ex_m :: "string struct" where
  "ex_m = ex_struct [(1/20, 0, 0), (1/2, 11/20, 1/2)] (cubic 10) [''C'', ''H'']"

definition ex_h :: "string struct" where
  "ex_h = ex_struct [(1/20, 0, 0), (1/2, 6/10, 1/2)] (cubic 10) [''C'', ''H'']"

text \<open>Halfway from \<open>ex_i\<close> to \<open>ex_f\<close>, where the second atom does not move.\<close>

definition ex_k :: "string struct" where
  "ex_k = ex_struct [(1/20, 0, 0), (1/2, 1/2, 1/2)] (cubic 10) [''C'', ''H'']"

definition ex_fs :: "string \<rightharpoonup> string poscar" where
  "ex_fs =
     [''./POSCAR_i'' \<mapsto> poscar_of ex_i, ''./POSCAR_f'' \<mapsto> poscar_of ex_f,
      ''./POSCAR_g'' \<mapsto> poscar_of ex_g, ''./POSCAR_m'' \<mapsto> poscar_of ex_m,
      ''./POSCAR_h'' \<mapsto> poscar_of ex_h, ''./POSCAR_k'' \<mapsto> poscar_of ex_k]"

text \<open>
  The final structure of scenario A in a cell of 20 angstrom, and with hydrogen in place
  of carbon.
\<close>

definition ex_f20 :: "string struct" where
  "ex_f20 = ex_struct [(1/10, 0, 0), (1/2, 1/2, 1/2)] (cubic 20) [''C'', ''H'']"

definition ex_fH :: "string struct" where
  "ex_fH = ex_struct [(1/10, 0, 0), (1/2, 1/2, 1/2)] (cubic 10) [''H'', ''H'']"

definition ex_fs_cell :: "string \<rightharpoonup> string poscar" where
  "ex_fs_cell = [''./POSCAR_i'' \<mapsto> poscar_of ex_i, ''./POSCAR_f'' \<mapsto> poscar_of ex_f20]"

definition ex_fs_species :: "string \<rightharpoonup> string poscar" where
  "ex_fs_species = [''./POSCAR_i'' \<mapsto> poscar_of ex_i, ''./POSCAR_f'' \<mapsto> poscar_of ex_fH]"

text \<open>
  An atom that crosses the cell boundary, from 0.95 to 0.05, with its medium position at
  the midpoint 0.5 of the two coordinates.
\<close>

definition ex_wi :: "string struct" where
  "ex_wi = ex_struct [(19/20, 0, 0), (1/2, 1/2, 1/2)] (cubic 10) [''C'', ''H'']"

definition ex_wf :: "string struct" where
  "ex_wf = ex_struct [(1/20, 0, 0), (1/2, 7/10, 1/2)] (cubic 10) [''C'', ''H'']"

definition ex_wh :: "string struct" where
  "ex_wh = ex_struct [(1/2, 0, 0), (1/2, 6/10, 1/2)] (cubic 10) [''C'', ''H'']"

definition ex_fs_wrap :: "string \<rightharpoonup> string poscar" where
  "ex_fs_wrap =
     [''./POSCAR_i'' \<mapsto> poscar_of ex_wi, ''./POSCAR_f'' \<mapsto> poscar_of ex_wf,
      ''./POSCAR_h'' \<mapsto> poscar_of ex_wh]"

text \<open>One atom that moves by half a cell along the first axis of a sheared cell.\<close>

definition ex_bi :: "string struct" where
  "ex_bi = ex_struct [(0, 0, 0)] sheared [''H'']"

definition ex_bf :: "string struct" where
  "ex_bf = ex_struct [(1/2, 1/5, 0)] sheared [''H'']"

definition ex_fs_half :: "string \<rightharpoonup> string poscar" where
  "ex_fs_half = [''./POSCAR_i'' \<mapsto> poscar_of ex_bi, ''./POSCAR_f'' \<mapsto> poscar_of ex_bf]"

lemmas ex_structs =
  ex_i_def ex_f_def ex_g_def ex_m_def ex_h_def ex_k_def ex_f20_def ex_fH_def ex_wi_def ex_wf_def
  ex_wh_def ex_bi_def ex_bf_def ex_struct_def cubic_def sheared_def

lemmas ex_files =
  ex_fs_def ex_fs_cell_def ex_fs_species_def ex_fs_wrap_def ex_fs_half_def poscar_of_def
  default_args_def swapped_def

section \<open>The wrap\<close>

lemma wrap_alt: "wrap x = x - of_int \<lfloor>x + 1/2\<rfloor>"
  by (simp add: wrap_def mod_one_def)

lemma wrap_lower: "- (1/2) \<le> wrap x"
  unfolding wrap_alt by linarith

lemma wrap_upper: "wrap x < 1/2"
  unfolding wrap_alt by linarith

lemma wrap_image: "\<exists>k::int. wrap x = x + of_int k"
  unfolding wrap_alt by (rule exI [of _ "- \<lfloor>x + 1/2\<rfloor>"]) simp



lemma wrap_min: "\<bar>wrap x\<bar> \<le> \<bar>x + of_int n\<bar>"
proof -
  define k where "k = n + \<lfloor>x + 1/2\<rfloor>"
  have eq: "x + of_int n = wrap x + of_int k"
    by (simp add: wrap_alt k_def)
  show ?thesis
  proof (cases "k = 0")
    case True
    then show ?thesis using eq by simp
  next
    case False
    then have "k \<le> -1 \<or> 1 \<le> k" by linarith
    then have "(of_int k :: real) \<le> -1 \<or> 1 \<le> (of_int k :: real)"
      by (metis of_int_le_iff of_int_1 of_int_minus)
    then show ?thesis using eq wrap_lower [of x] wrap_upper [of x] by linarith
  qed
qed


lemma wrap_zero: "wrap 0 = 0"
  by (simp add: wrap_alt)

text \<open>
  C3. For every real raw difference the wrap \<open>((raw + 0.5) mod 1) - 0.5\<close> lies in the
  half-open range from -0.5 (included) to 0.5 (excluded). It is a periodic image of the raw
  value, and no periodic image \<open>raw + n\<close> has a smaller magnitude. The end point -0.5 is
  reached, at the raw value 0.5; the end point 0.5 never is.
\<close>

theorem wrap_range_minimum_image:
  "- (1/2) \<le> wrap x \<and> wrap x < 1/2
   \<and> (\<exists>k::int. wrap x = x + of_int k)
   \<and> (\<forall>n::int. \<bar>wrap x\<bar> \<le> \<bar>x + of_int n\<bar>)
   \<and> wrap (1/2) = - (1/2)"
  using wrap_lower [of x] wrap_upper [of x] wrap_image [of x] wrap_min [of x]
  by (simp add: wrap_alt)

theorem wrap_range_minimum_image_witness:
  "wrap (9/10) = - (1/10) \<and> - (1/2) \<le> wrap (9/10) \<and> wrap (9/10) < 1/2
   \<and> (\<forall>n::int. \<bar>wrap (9/10)\<bar> \<le> \<bar>9/10 + of_int n\<bar>)"
  using wrap_range_minimum_image [of "9/10"] by (simp add: wrap_alt)

text \<open>
  The range as C3 states it, open at -0.5 and closed at 0.5, does not hold the wrap of
  the raw value 0.5.
\<close>

theorem wrap_range_counterexample:
  "\<not> (- (1/2) < wrap (1/2) \<and> wrap (1/2) \<le> 1/2)"
  by (simp add: wrap_alt)

section \<open>The wrap on float64\<close>

lemma powr_powi: "(2::real) powr real_of_int k = 2 powi k"
  by (rule powr_real_of_int') simp_all

lemma powr_powi_Suc: "(2::real) powr (real_of_int k + 1) = 2 powi (k + 1)"
proof -
  have "real_of_int k + 1 = real_of_int (k + 1)" by simp
  then show ?thesis by (simp only: powr_powi)
qed

lemma floor_log2_bounds:
  assumes "r \<noteq> 0"
  shows "2 powi \<lfloor>log 2 \<bar>r\<bar>\<rfloor> \<le> \<bar>r\<bar>" "\<bar>r\<bar> < 2 powi (\<lfloor>log 2 \<bar>r\<bar>\<rfloor> + 1)"
proof -
  have "0 < \<bar>r\<bar>" using assms by simp
  then have "2 powr \<lfloor>log 2 \<bar>r\<bar>\<rfloor> \<le> \<bar>r\<bar> \<and> \<bar>r\<bar> < 2 powr (\<lfloor>log 2 \<bar>r\<bar>\<rfloor> + 1)"
    using floor_log_eq_powr_iff [of "\<bar>r\<bar>" 2 "\<lfloor>log 2 \<bar>r\<bar>\<rfloor>"] by simp
  then show "2 powi \<lfloor>log 2 \<bar>r\<bar>\<rfloor> \<le> \<bar>r\<bar>" "\<bar>r\<bar> < 2 powi (\<lfloor>log 2 \<bar>r\<bar>\<rfloor> + 1)"
    by (simp_all only: powr_powi powr_powi_Suc)
qed

lemma floor_log2_eq:
  assumes "2 powi e \<le> \<bar>r\<bar>" "\<bar>r\<bar> < 2 powi (e + 1)"
  shows "\<lfloor>log 2 \<bar>r\<bar>\<rfloor> = e"
proof -
  have pos: "0 < \<bar>r\<bar>" using assms(1) zero_less_power_int [of "2::real" e] by linarith
  have "2 powr e \<le> \<bar>r\<bar> \<and> \<bar>r\<bar> < 2 powr (e + 1)"
    using assms by (simp only: powr_powi powr_powi_Suc)
  then show ?thesis
    using floor_log_eq_powr_iff [OF pos, of 2 e] by simp
qed

lemma round_even_int: "round_even (of_int n) = n"
  by (simp add: round_even_def)

lemma round_even_fix: "of_int (round_even q) = q \<longleftrightarrow> q \<in> \<int>"
proof
  assume "of_int (round_even q) = q"
  then show "q \<in> \<int>" by (metis Ints_of_int)
next
  assume "q \<in> \<int>"
  then obtain n where "q = of_int n" by (auto elim: Ints_cases)
  then show "of_int (round_even q) = q" by (simp add: round_even_int)
qed

lemma round_even_close: "\<bar>of_int (round_even q) - q\<bar> \<le> 1/2"
  unfolding round_even_def Let_def by (auto; linarith)

lemma f64_ulp_pos: "0 < f64_ulp r"
  by (simp add: f64_ulp_def)

lemma is_f64_iff:
  "is_f64 r \<longleftrightarrow> r / f64_ulp r \<in> \<int> \<and> \<bar>r\<bar> < f64_huge"
proof (cases "r = 0")
  case True
  then show ?thesis by (simp add: is_f64_def f64_round_def f64_huge_def)
next
  case False
  have "of_int (round_even (r / f64_ulp r)) * f64_ulp r = r
        \<longleftrightarrow> of_int (round_even (r / f64_ulp r)) = r / f64_ulp r"
    using f64_ulp_pos [of r] by (simp add: field_simps)
  then show ?thesis
    using False by (auto simp: is_f64_def f64_round_def Let_def round_even_fix not_le)
qed

lemma is_f64_0: "is_f64 0"
  by (simp add: is_f64_def f64_round_def)

lemma pw_add: "(2::real) powi (a + b) = 2 powi a * 2 powi b"
  by (rule power_int_add) simp

lemma pw_mono: "a \<le> b \<Longrightarrow> (2::real) powi a \<le> 2 powi b"
  by (rule power_int_increasing) simp_all

lemma pw_strict: "a < b \<Longrightarrow> (2::real) powi a < 2 powi b"
  by (rule power_int_strict_increasing) simp_all

lemma pw_le_D: "(2::real) powi a \<le> 2 powi b \<Longrightarrow> a \<le> b"
  using pw_strict [of b a] by (cases "a \<le> b") auto

lemma pw_less_D: "(2::real) powi a < 2 powi b \<Longrightarrow> a < b"
  using pw_mono [of b a] by (cases "a < b") auto

lemma pw_int: "0 \<le> i \<Longrightarrow> (2::real) powi i = of_int (2 ^ nat i)"
  by (simp add: power_int_def)

lemma grid_coarser:
  assumes "k \<le> j"
  shows "\<exists>n'::int. of_int n * (2::real) powi j = of_int n' * 2 powi k"
proof -
  have "(2::real) powi j = 2 powi (j - k) * 2 powi k"
    using pw_add [of "j - k" k] by simp
  also have "(2::real) powi (j - k) = of_int (2 ^ nat (j - k))"
    using assms by (intro pw_int) simp
  finally have "of_int n * (2::real) powi j = of_int (n * 2 ^ nat (j - k)) * 2 powi k"
    by simp
  then show ?thesis by blast
qed

lemma f64_exponent_ge: "- 1022 \<le> f64_exponent r"
  by (simp add: f64_exponent_def)

lemma f64_exponent_upper: "r \<noteq> 0 \<Longrightarrow> \<bar>r\<bar> < 2 powi (f64_exponent r + 1)"
proof -
  assume "r \<noteq> 0"
  then have "\<bar>r\<bar> < 2 powi (\<lfloor>log 2 \<bar>r\<bar>\<rfloor> + 1)" by (rule floor_log2_bounds)
  also have "\<dots> \<le> 2 powi (f64_exponent r + 1)"
    by (intro pw_mono) (simp add: f64_exponent_def)
  finally show ?thesis .
qed

lemma f64_exponent_normal:
  assumes "2 powi j \<le> \<bar>r\<bar>" "- 1022 \<le> j"
  shows "j \<le> f64_exponent r" "2 powi f64_exponent r \<le> \<bar>r\<bar>"
proof -
  have "(0::real) < 2 powi j" by simp
  with assms(1) have "0 < \<bar>r\<bar>" by linarith
  then have nz: "r \<noteq> 0" by auto
  have "(2::real) powi j < 2 powi (\<lfloor>log 2 \<bar>r\<bar>\<rfloor> + 1)"
    using assms(1) floor_log2_bounds(2) [OF nz] by linarith
  then have j: "j \<le> \<lfloor>log 2 \<bar>r\<bar>\<rfloor>" using pw_less_D by fastforce
  then have e: "f64_exponent r = \<lfloor>log 2 \<bar>r\<bar>\<rfloor>"
    using assms(2) by (simp add: f64_exponent_def)
  show "j \<le> f64_exponent r" using j e by simp
  show "2 powi f64_exponent r \<le> \<bar>r\<bar>"
    using floor_log2_bounds(1) [OF nz] e by simp
qed

lemma f64_exponent_eq:
  assumes "2 powi e \<le> \<bar>r\<bar>" "\<bar>r\<bar> < 2 powi (e + 1)" "- 1022 \<le> e"
  shows "f64_exponent r = e"
  using floor_log2_eq [OF assms(1,2)] assms(3) by (simp add: f64_exponent_def)

lemma grid_is_f64:
  assumes r: "r = of_int n * 2 powi k" and n: "\<bar>n\<bar> \<le> 2 ^ 53" and k: "- 1074 \<le> k"
    and b: "\<bar>r\<bar> < f64_huge"
  shows "is_f64 r"
proof (cases "r = 0")
  case True
  then show ?thesis by (simp add: is_f64_0)
next
  case False
  define E where "E = f64_exponent r"
  have "r / 2 powi (E - 52) \<in> \<int>"
  proof (cases "E - 52 \<le> k")
    case True
    obtain n' :: int where "of_int n * (2::real) powi k = of_int n' * 2 powi (E - 52)"
      using grid_coarser [OF True] by blast
    then have "r / 2 powi (E - 52) = of_int n'" by (simp add: r)
    then show ?thesis by simp
  next
    case lt: False
    then have "- 1022 < E" using k by linarith
    then have "- 1022 \<le> \<lfloor>log 2 \<bar>r\<bar>\<rfloor>" "E = \<lfloor>log 2 \<bar>r\<bar>\<rfloor>"
      by (simp_all add: E_def f64_exponent_def max_def split: if_splits)
    then have lo: "2 powi E \<le> \<bar>r\<bar>" using floor_log2_bounds(1) [OF False] by simp
    have "\<bar>r\<bar> = of_int \<bar>n\<bar> * 2 powi k" by (simp add: r abs_mult)
    also have "\<dots> \<le> of_int (2 ^ 53) * 2 powi k"
      using n by (intro mult_right_mono) (simp_all flip: of_int_le_iff)
    also have "\<dots> = 2 powi (53 + k)" by (simp add: pw_add)
    finally have "2 powi E \<le> (2::real) powi (53 + k)" using lo by linarith
    then have "E \<le> 53 + k" by (rule pw_le_D)
    then have Ek: "E = 53 + k" using lt by linarith
    have "2 powi (53 + k) \<le> of_int \<bar>n\<bar> * (2::real) powi k"
      using lo Ek by (simp add: r abs_mult)
    then have "2 ^ 53 * 2 powi k \<le> of_int \<bar>n\<bar> * (2::real) powi k" by (simp add: pw_add)
    then have "(2::real) ^ 53 \<le> of_int \<bar>n\<bar>" by simp
    then have "\<bar>n\<bar> = 2 ^ 53" using n by (simp flip: of_int_le_iff)
    then have "n = 2 ^ 53 \<or> n = - (2 ^ 53)" by linarith
    moreover have "(2::real) powi (E - 52) = 2 * 2 powi k"
      using pw_add [of 1 k] Ek by simp
    ultimately have "r / 2 powi (E - 52) = of_int (2 ^ 52) \<or> r / 2 powi (E - 52) = of_int (- (2 ^ 52))"
      by (auto simp: r)
    then show ?thesis by (metis Ints_of_int)
  qed
  then show ?thesis using b by (simp add: is_f64_iff f64_ulp_def E_def)
qed

lemma f64_on_grid:
  assumes "is_f64 r" "2 powi j \<le> \<bar>r\<bar>" "- 1022 \<le> j"
  shows "\<exists>n::int. r = of_int n * 2 powi (j - 52)"
proof -
  have "r / f64_ulp r \<in> \<int>" using assms(1) by (simp add: is_f64_iff)
  then obtain N :: int where "r / f64_ulp r = of_int N" by (auto elim: Ints_cases)
  then have "r = of_int N * 2 powi (f64_exponent r - 52)"
    using f64_ulp_pos [of r] by (simp add: f64_ulp_def field_simps)
  moreover have "j - 52 \<le> f64_exponent r - 52"
    using f64_exponent_normal(1) [OF assms(2,3)] by simp
  ultimately show ?thesis using grid_coarser [of "j - 52" "f64_exponent r - 52" N] by metis
qed

lemma round_even_le: "q \<le> of_int n \<Longrightarrow> round_even q \<le> n"
  unfolding round_even_def Let_def by (auto; linarith)

lemma round_even_ge: "of_int n \<le> q \<Longrightarrow> n \<le> round_even q"
  unfolding round_even_def Let_def by (auto; linarith)

lemma f64_round_rounded:
  "f64_round r = Some v \<Longrightarrow> v = rounded r \<and> \<bar>v\<bar> < f64_huge"
  by (auto simp: f64_round_def rounded_def Let_def round_even_int [of 0, simplified] f64_huge_def
      split: if_splits)

lemma rounded_bounds:
  assumes "r \<noteq> 0"
  shows "\<bar>round_even (r / f64_ulp r)\<bar> \<le> 2 ^ 53"
proof -
  have "\<bar>r\<bar> < 2 powi (f64_exponent r + 1)" using assms by (rule f64_exponent_upper)
  also have "\<dots> = 2 ^ 53 * f64_ulp r"
    using pw_add [of 53 "f64_exponent r - 52"] by (simp add: f64_ulp_def add.commute)
  finally have "\<bar>r\<bar> / f64_ulp r < 2 ^ 53"
    using f64_ulp_pos [of r] by (simp add: field_simps)
  moreover have "\<bar>r / f64_ulp r\<bar> = \<bar>r\<bar> / f64_ulp r"
    using f64_ulp_pos [of r] by simp
  ultimately have "r / f64_ulp r \<le> 2 ^ 53" "- (2 ^ 53) \<le> r / f64_ulp r"
    by linarith+
  then have "r / f64_ulp r \<le> of_int (2 ^ 53)" "of_int (- (2 ^ 53)) \<le> r / f64_ulp r"
    by simp_all
  then have "round_even (r / f64_ulp r) \<le> 2 ^ 53" "- (2 ^ 53) \<le> round_even (r / f64_ulp r)"
    using round_even_le round_even_ge by blast+
  then show ?thesis by linarith
qed

lemma rounded_is_f64:
  assumes "f64_round r = Some v"
  shows "is_f64 v"
proof (cases "r = 0")
  case True
  then show ?thesis using assms by (simp add: f64_round_def is_f64_0)
next
  case False
  have v: "v = of_int (round_even (r / f64_ulp r)) * 2 powi (f64_exponent r - 52)"
    "\<bar>v\<bar> < f64_huge"
    using f64_round_rounded [OF assms] by (auto simp: rounded_def f64_ulp_def)
  show ?thesis
    using v(1) rounded_bounds [OF False] _ v(2)
    by (rule grid_is_f64) (use f64_exponent_ge [of r] in linarith)
qed

lemma f64_round_nonneg:
  assumes "f64_round r = Some v" "0 \<le> r"
  shows "0 \<le> v"
proof -
  have "of_int 0 \<le> r / f64_ulp r" using assms(2) f64_ulp_pos [of r] by simp
  then have "0 \<le> round_even (r / f64_ulp r)" by (rule round_even_ge)
  then show ?thesis
    using f64_round_rounded [OF assms(1)] f64_ulp_pos [of r] by (simp add: rounded_def)
qed

lemma f64_round_exact: "is_f64 r \<Longrightarrow> f64_round r = Some r"
  by (simp add: is_f64_def)

lemma small_grid_is_f64:
  assumes r: "r = of_int n * 2 powi k" and b: "\<bar>r\<bar> \<le> 2 powi (k + 53)"
    and k: "- 1074 \<le> k" "k \<le> 970"
  shows "is_f64 r"
proof -
  have "of_int \<bar>n\<bar> * (2::real) powi k \<le> 2 powi (k + 53)"
    using b by (simp add: r abs_mult)
  also have "\<dots> = 2 ^ 53 * 2 powi k"
    using pw_add [of k 53] by simp
  finally have "real_of_int \<bar>n\<bar> \<le> 2 ^ 53" by simp
  then have n: "\<bar>n\<bar> \<le> 2 ^ 53" by (simp flip: of_int_le_iff)
  have "(2::real) powi (k + 53) < 2 powi 1024"
    using k(2) by (intro pw_strict) simp
  then have "\<bar>r\<bar> < f64_huge" using b unfolding f64_huge_def by linarith
  with r n k(1) show ?thesis by (rule grid_is_f64)
qed

lemma f64_round_total:
  assumes "\<bar>r\<bar> < 2 powi 1023"
  shows "\<exists>v. f64_round r = Some v"
proof (cases "r = 0")
  case True
  then show ?thesis by (simp add: f64_round_def)
next
  case False
  define E where "E = f64_exponent r"
  have "2 powi \<lfloor>log 2 \<bar>r\<bar>\<rfloor> < (2::real) powi 1023"
    using floor_log2_bounds(1) [OF False] assms by linarith
  then have "\<lfloor>log 2 \<bar>r\<bar>\<rfloor> < 1023" by (rule pw_less_D)
  then have E: "E \<le> 1022" by (simp add: E_def f64_exponent_def)
  have "\<bar>rounded r\<bar> = of_int \<bar>round_even (r / f64_ulp r)\<bar> * f64_ulp r"
    using f64_ulp_pos [of r] by (simp add: rounded_def abs_mult)
  also have "\<dots> \<le> of_int (2 ^ 53) * f64_ulp r"
    using rounded_bounds [OF False] f64_ulp_pos [of r]
    by (intro mult_right_mono) (simp_all flip: of_int_le_iff)
  also have "\<dots> = 2 powi (E + 1)"
    using pw_add [of 53 "E - 52"] by (simp add: f64_ulp_def E_def add.commute)
  also have "\<dots> < 2 powi 1024" using E by (intro pw_strict) simp
  finally have "\<bar>rounded r\<bar> < f64_huge" by (simp only: f64_huge_def)
  then show ?thesis
    using False by (simp add: f64_round_def rounded_def Let_def)
qed

lemma f64_round_negative:
  assumes "f64_round r = Some v" "r < 0" "2 powi j \<le> \<bar>r\<bar>" "- 1022 \<le> j"
  shows "v \<le> - (2 powi j)"
proof -
  define E where "E = f64_exponent r"
  have E: "j \<le> E" "2 powi E \<le> \<bar>r\<bar>"
    using f64_exponent_normal [OF assms(3,4)] by (simp_all add: E_def)
  have u: "f64_ulp r = 2 powi (E - 52)" by (simp add: f64_ulp_def E_def)
  have "(2::real) powi E = 2 ^ 52 * 2 powi (E - 52)"
    using pw_add [of 52 "E - 52"] by simp
  then have "r \<le> - (2 ^ 52) * 2 powi (E - 52)" using E(2) assms(2) by simp
  then have "r / f64_ulp r \<le> of_int (- (2 ^ 52))"
    by (simp add: u field_simps)
  then have "round_even (r / f64_ulp r) \<le> - (2 ^ 52)" by (rule round_even_le)
  then have "real_of_int (round_even (r / f64_ulp r)) \<le> - (2 ^ 52)"
    by (simp flip: of_int_le_iff)
  then have "rounded r \<le> - (2 ^ 52) * 2 powi (E - 52)"
    unfolding rounded_def u by (intro mult_right_mono) simp_all
  also have "\<dots> = - (2 powi E)"
    using pw_add [of 52 "E - 52"] by simp
  also have "\<dots> \<le> - (2 powi j)" using pw_mono [OF E(1)] by simp
  finally show ?thesis using f64_round_rounded [OF assms(1)] by simp
qed

lemma f64_round_ge_grid:
  assumes "f64_round r = Some v" "of_int n * f64_ulp r \<le> r"
  shows "of_int n * f64_ulp r \<le> v"
proof -
  have "of_int n \<le> r / f64_ulp r"
    using assms(2) f64_ulp_pos [of r] by (simp add: field_simps)
  then have "n \<le> round_even (r / f64_ulp r)" by (rule round_even_ge)
  then have "real_of_int n \<le> of_int (round_even (r / f64_ulp r))" by simp
  then have "of_int n * f64_ulp r \<le> rounded r"
    unfolding rounded_def using f64_ulp_pos [of r] by (intro mult_right_mono) simp_all
  then show ?thesis using f64_round_rounded [OF assms(1)] by simp
qed

lemma fmod_one_nonneg: "0 \<le> s \<Longrightarrow> fmod_one s = s - of_int \<lfloor>s\<rfloor>"
  by (simp add: fmod_one_def)

lemma fmod_one_negative: "s < 0 \<Longrightarrow> fmod_one s = s - of_int \<lceil>s\<rceil>"
  by (simp add: fmod_one_def)

lemma wrap64_exact:
  assumes "is_f64 x" "- (1/2) \<le> x" "x < 1/2" "is_f64 (x + 1/2)"
  shows "wrap64 x = Some x"
proof -
  have "\<lfloor>x + 1/2\<rfloor> = 0" using assms(2,3) by linarith
  then have "fmod_one (x + 1/2) = x + 1/2" using assms(2) by (simp add: fmod_one_def)
  then have "mod64_one (x + 1/2) = Some (x + 1/2)"
    using assms(2) by (simp add: mod64_one_def)
  then show ?thesis
    using f64_round_exact [OF assms(1)] f64_round_exact [OF assms(4)]
    by (simp add: wrap64_def)
qed

lemma half_pw: "(1/2::real) = 2 powi (- 1)" "(1/4::real) = 2 powi (- 2)" "(1::real) = 2 powi 0"
  by simp_all

lemma sum_bound:
  fixes y :: real
  assumes "0 \<le> k" "\<bar>y\<bar> \<le> 2 powi k"
  shows "\<bar>y + 1/2\<bar> < 2 powi (k + 1)"
proof -
  have "(1/2::real) < 2 powi k"
    using pw_mono [OF assms(1)] by simp
  then have "\<bar>y + 1/2\<bar> < 2 powi k + 2 powi k" using assms(2) by linarith
  also have "\<dots> = 2 powi (k + 1)" using pw_add [of k 1] by simp
  finally show ?thesis .
qed

text \<open>A negative rounded sum \<open>y + 0.5\<close> is a multiple of \<open>2 powi (- 53)\<close>.\<close>

lemma negative_sum_grid:
  assumes y: "is_f64 y" and s: "f64_round (y + 1/2) = Some s" and neg: "s < 0"
  shows "\<exists>n::int. s = of_int n * 2 powi (- 53)"
proof -
  have r: "y + 1/2 < 0"
    using f64_round_nonneg [OF s] neg by (cases "0 \<le> y + 1/2") auto
  then have "2 powi (- 1) \<le> \<bar>y\<bar>" by simp
  then obtain n :: int where n: "y = of_int n * 2 powi (- 1 - 52)"
    using f64_on_grid [OF y, of "- 1"] by auto
  have sum: "y + 1/2 = of_int (n + 2 ^ 52) * 2 powi (- 53)"
    by (simp add: n algebra_simps)
  show ?thesis
  proof (cases "- 1 \<le> y + 1/2")
    case True
    then have "\<bar>y + 1/2\<bar> \<le> 2 powi (- 53 + 53)" using r by simp
    with sum have "is_f64 (y + 1/2)" by (rule small_grid_is_f64) simp_all
    then have "s = y + 1/2" using s by (simp add: is_f64_def)
    then show ?thesis using sum by blast
  next
    case False
    then have "2 powi 0 \<le> \<bar>y + 1/2\<bar>" by simp
    with s r have "s \<le> - (2 powi 0)" by (rule f64_round_negative) simp
    then have "2 powi 0 \<le> \<bar>s\<bar>" by simp
    then obtain n' :: int where "s = of_int n' * 2 powi (0 - 52)"
      using f64_on_grid [OF rounded_is_f64 [OF s], of 0] by auto
    then have "s = of_int (2 * n') * 2 powi (- 53)" by simp
    then show ?thesis by blast
  qed
qed

text \<open>The remainder of such a sum is a float64 in the range from 0 to 1.\<close>

lemma mod64_one_range:
  assumes s: "is_f64 s" and g: "s < 0 \<Longrightarrow> \<exists>n::int. s = of_int n * 2 powi (- 53)"
  shows "\<exists>m. mod64_one s = Some m \<and> is_f64 m \<and> 0 \<le> m \<and> m < 1"
proof (cases "0 \<le> s")
  case True
  define m where "m = s - of_int \<lfloor>s\<rfloor>"
  have range: "0 \<le> m" "m < 1" unfolding m_def by linarith+
  have "\<not> fmod_one s < 0" using True range(1) by (simp only: fmod_one_nonneg m_def)
  then have mod: "mod64_one s = Some m"
    using True by (simp add: mod64_one_def Let_def fmod_one_nonneg m_def)
  have "is_f64 m"
  proof (cases "s < 1")
    case True
    then have "\<lfloor>s\<rfloor> = 0" using \<open>0 \<le> s\<close> by linarith
    then show ?thesis using s by (simp add: m_def)
  next
    case False
    then have "2 powi 0 \<le> \<bar>s\<bar>" by simp
    then obtain n :: int where "s = of_int n * 2 powi (0 - 52)"
      using f64_on_grid [OF s, of 0] by auto
    then have "m = of_int (n - \<lfloor>s\<rfloor> * 2 ^ 52) * 2 powi (- 52)"
      by (simp add: m_def algebra_simps)
    moreover have "\<bar>m\<bar> \<le> 2 powi (- 52 + 53)" using range by simp
    ultimately show ?thesis by (rule small_grid_is_f64) simp_all
  qed
  then show ?thesis using mod range by blast
next
  case False
  then have neg: "s < 0" by simp
  define f where "f = s - of_int \<lceil>s\<rceil>"
  have frange: "- 1 < f" "f \<le> 0" unfolding f_def by linarith+
  obtain n :: int where "s = of_int n * 2 powi (- 53)" using g [OF neg] by blast
  then have fg: "f = of_int (n - \<lceil>s\<rceil> * 2 ^ 53) * 2 powi (- 53)"
    by (simp add: f_def algebra_simps)
  show ?thesis
  proof (cases "f < 0")
    case False
    then have "f = 0" using frange by simp
    then have "mod64_one s = Some 0"
      using neg by (simp add: mod64_one_def Let_def fmod_one_negative f_def)
    then show ?thesis using is_f64_0 by simp
  next
    case True
    have "f + 1 = of_int (n - \<lceil>s\<rceil> * 2 ^ 53 + 2 ^ 53) * 2 powi (- 53)"
      by (simp add: fg algebra_simps)
    moreover have "\<bar>f + 1\<bar> \<le> 2 powi (- 53 + 53)" using frange by simp
    ultimately have "is_f64 (f + 1)" by (rule small_grid_is_f64) simp_all
    then have "mod64_one s = Some (f + 1)"
      using neg True by (simp add: mod64_one_def Let_def fmod_one_negative f_def is_f64_def)
    then show ?thesis using \<open>is_f64 (f + 1)\<close> frange True by simp
  qed
qed

text \<open>Subtracting 0.5 from it gives a value \<open>w\<close> for which \<open>w + 0.5\<close> is exact.\<close>

lemma subtract_half_range:
  assumes m: "is_f64 m" "0 \<le> m" "m < 1"
  shows "\<exists>w. f64_round (m - 1/2) = Some w \<and> is_f64 w \<and> is_f64 (w + 1/2)
           \<and> - (1/2) \<le> w \<and> w < 1/2"
proof (cases "1/4 \<le> m")
  case True
  then have "2 powi (- 2) \<le> \<bar>m\<bar>" by simp
  then obtain n :: int where "m = of_int n * 2 powi (- 2 - 52)"
    using f64_on_grid [OF m(1), of "- 2"] by auto
  then have "m - 1/2 = of_int (n - 2 ^ 53) * 2 powi (- 54)"
    by (simp add: algebra_simps)
  moreover have "\<bar>m - 1/2\<bar> \<le> 1/2" using m(2,3) by linarith
  then have "\<bar>m - 1/2\<bar> \<le> 2 powi (- 54 + 53)" by simp
  ultimately have e: "is_f64 (m - 1/2)" by (rule small_grid_is_f64) simp_all
  then have "f64_round (m - 1/2) = Some (m - 1/2)" by (simp add: is_f64_def)
  then show ?thesis using e m by simp
next
  case False
  then have lt: "m < 1/4" by simp
  have "\<bar>m - 1/2\<bar> < 2 powi 1023"
  proof -
    have "\<bar>m - 1/2\<bar> < 2 powi 0" using m(2) lt by simp
    also have "(2::real) powi 0 \<le> 2 powi 1023" by (intro pw_mono) simp
    finally show ?thesis .
  qed
  then obtain w where w: "f64_round (m - 1/2) = Some w"
    using f64_round_total by blast
  have fw: "is_f64 w" using w by (rule rounded_is_f64)
  have up: "w \<le> - (1/4)"
  proof -
    have "w \<le> - (2 powi (- 2))"
      using w by (rule f64_round_negative) (use m(2) lt in simp_all)
    then show ?thesis by simp
  qed
  have lo: "- (1/2) \<le> w"
  proof (cases "m = 0")
    case True
    have "- (1/2) = of_int (- 1) * (2::real) powi (- 1)" by simp
    moreover have "\<bar>- (1/2::real)\<bar> \<le> 2 powi (- 1 + 53)" by simp
    ultimately have "is_f64 (- (1/2))" by (rule small_grid_is_f64) simp_all
    then show ?thesis using w True by (simp add: is_f64_def)
  next
    case False
    then have "2 powi (- 2) \<le> \<bar>m - 1/2\<bar>" "\<bar>m - 1/2\<bar> < 2 powi (- 2 + 1)"
      using m(2) lt by simp_all
    then have "f64_exponent (m - 1/2) = - 2" by (rule f64_exponent_eq) simp
    then have u: "f64_ulp (m - 1/2) = 2 powi (- 54)" by (simp add: f64_ulp_def)
    have "of_int (- (2 ^ 53)) * f64_ulp (m - 1/2) \<le> m - 1/2"
      using m(2) by (simp add: u)
    with w have "of_int (- (2 ^ 53)) * f64_ulp (m - 1/2) \<le> w" by (rule f64_round_ge_grid)
    then show ?thesis by (simp add: u)
  qed
  have "2 powi (- 2) \<le> \<bar>w\<bar>" using up by simp
  then obtain n :: int where "w = of_int n * 2 powi (- 2 - 52)"
    using f64_on_grid [OF fw, of "- 2"] by auto
  then have "w + 1/2 = of_int (n + 2 ^ 53) * 2 powi (- 54)"
    by (simp add: algebra_simps)
  moreover have "\<bar>w + 1/2\<bar> \<le> 2 powi (- 54 + 53)" using up lo by simp
  ultimately have "is_f64 (w + 1/2)" by (rule small_grid_is_f64) simp_all
  then show ?thesis using w fw up lo by simp
qed

lemma wrap64_result:
  assumes y: "is_f64 y" and w: "wrap64 y = Some w"
  shows "is_f64 w \<and> is_f64 (w + 1/2) \<and> - (1/2) \<le> w \<and> w < 1/2"
proof -
  obtain s where s: "f64_round (y + 1/2) = Some s"
    using w by (auto simp: wrap64_def split: option.splits)
  have fs: "is_f64 s" using s by (rule rounded_is_f64)
  obtain m where m: "mod64_one s = Some m" "is_f64 m" "0 \<le> m" "m < 1"
    using mod64_one_range [OF fs negative_sum_grid [OF y s]] by blast
  obtain w' where w': "f64_round (m - 1/2) = Some w'" "is_f64 w'" "is_f64 (w' + 1/2)"
    "- (1/2) \<le> w'" "w' < 1/2"
    using subtract_half_range [OF m(2-4)] by blast
  have "w = w'" using w s m(1) w'(1) by (simp add: wrap64_def)
  then show ?thesis using w' by simp
qed

lemma wrap64_idem:
  assumes "is_f64 y" "wrap64 y = Some w"
  shows "wrap64 w = Some w"
  using wrap64_result [OF assms] by (intro wrap64_exact) simp_all

lemma wrap64_total:
  assumes y: "is_f64 y" and b: "\<bar>y\<bar> \<le> 2 powi 1022"
  shows "\<exists>w. wrap64 y = Some w"
proof -
  have "\<bar>y + 1/2\<bar> < 2 powi 1023"
    using sum_bound [of 1022 y] b by simp
  then obtain s where s: "f64_round (y + 1/2) = Some s"
    using f64_round_total by blast
  have fs: "is_f64 s" using s by (rule rounded_is_f64)
  obtain m where m: "mod64_one s = Some m" "is_f64 m" "0 \<le> m" "m < 1"
    using mod64_one_range [OF fs negative_sum_grid [OF y s]] by blast
  obtain w where "f64_round (m - 1/2) = Some w"
    using subtract_half_range [OF m(2-4)] by blast
  then have "wrap64 y = Some w" using s m(1) by (simp add: wrap64_def)
  then show ?thesis by blast
qed

lemma f64_round_eval:
  assumes "2 powi e \<le> \<bar>r\<bar>" "\<bar>r\<bar> < 2 powi (e + 1)" "- 1022 \<le> e" "e \<le> 1021"
  shows "f64_round r = Some (of_int (round_even (r / 2 powi (e - 52))) * 2 powi (e - 52))"
proof -
  have u: "f64_ulp r = 2 powi (e - 52)"
    using f64_exponent_eq [OF assms(1-3)] by (simp add: f64_ulp_def)
  have "\<bar>r\<bar> < (2::real) powi (e + 1)" by (rule assms(2))
  also have "(2::real) powi (e + 1) \<le> 2 powi 1023" using assms(4) by (intro pw_mono) simp
  finally obtain v where v: "f64_round r = Some v" using f64_round_total by blast
  then show ?thesis using f64_round_rounded [OF v] by (simp add: rounded_def u)
qed

lemma is_f64_half: "is_f64 (1/2)" "is_f64 (- (1/2))" "is_f64 (1/4)" "is_f64 (3/4)" "is_f64 1"
proof -
  have g: "\<And>r n k. r = of_int n * (2::real) powi k \<Longrightarrow> \<bar>r\<bar> \<le> 2 powi (k + 53)
      \<Longrightarrow> - 1074 \<le> k \<Longrightarrow> k \<le> 970 \<Longrightarrow> is_f64 r"
    by (rule small_grid_is_f64)
  show "is_f64 (1/2)" by (rule g [of _ 1 "- 1"]) simp_all
  show "is_f64 (- (1/2))" by (rule g [of _ "- 1" "- 1"]) simp_all
  show "is_f64 (1/4)" by (rule g [of _ 1 "- 2"]) simp_all
  show "is_f64 (3/4)" by (rule g [of _ 3 "- 2"]) simp_all
  show "is_f64 1" by (rule g [of _ 1 0]) simp_all
qed

lemma is_f64_below_half: "is_f64 (1/2 - 2 powi (- 54))"
  by (rule small_grid_is_f64 [of _ "2 ^ 53 - 1" "- 54"]) simp_all

lemma round_below_one: "f64_round (1/2 - 2 powi (- 54) + 1/2) = Some 1"
proof -
  have "f64_round (1/2 - 2 powi (- 54) + 1/2)
      = Some (of_int (round_even ((1/2 - 2 powi (- 54) + 1/2) / 2 powi (- 1 - 52)))
              * 2 powi (- 1 - 52))"
    by (rule f64_round_eval) simp_all
  moreover have "round_even ((1/2 - 2 powi (- 54) + 1/2) / 2 powi (- 1 - 52)) = 2 ^ 53"
    by (simp add: round_even_def Let_def)
  ultimately show ?thesis by simp
qed

lemma wrap64_below_half: "wrap64 (1/2 - 2 powi (- 54)) = Some (- (1/2))"
proof -
  have "mod64_one 1 = Some 0" by (simp add: mod64_one_def fmod_one_def)
  then show ?thesis
    using round_below_one f64_round_exact [OF is_f64_half(2)] by (simp add: wrap64_def)
qed

lemma wrap64_agrees:
  assumes "is_f64 (x + 1/2)" "is_f64 (mod_one (x + 1/2))" "is_f64 (wrap x)"
  shows "wrap64 x = Some (wrap x)"
proof -
  define s where "s = x + 1/2"
  have "mod64_one s = Some (mod_one s)"
  proof (cases "0 \<le> s")
    case True
    then have "fmod_one s = mod_one s" by (simp add: fmod_one_def mod_one_def)
    moreover have "0 \<le> mod_one s" unfolding mod_one_def by linarith
    ultimately show ?thesis by (simp add: mod64_one_def Let_def)
  next
    case False
    show ?thesis
    proof (cases "s \<in> \<int>")
      case True
      then obtain n :: int where "s = of_int n" by (auto elim: Ints_cases)
      then show ?thesis by (simp add: mod64_one_def fmod_one_def mod_one_def)
    next
      case nonint: False
      have ne: "of_int \<lfloor>s\<rfloor> \<noteq> s" using nonint by (metis Ints_of_int)
      then have c: "\<lceil>s\<rceil> = \<lfloor>s\<rfloor> + 1" by (simp add: ceiling_altdef)
      from ne have "s - of_int \<lceil>s\<rceil> < 0" unfolding c by simp
      moreover have "s - of_int \<lceil>s\<rceil> + 1 = mod_one s" by (simp add: c mod_one_def)
      ultimately show ?thesis
        using False assms(2) by (simp add: mod64_one_def Let_def fmod_one_def s_def is_f64_def)
    qed
  qed
  then show ?thesis
    using assms(1,3) by (simp add: wrap64_def wrap_def s_def is_f64_def)
qed

text \<open>
  C9. The wrap of line 35 is idempotent on the values it returns: for every float64
  \<open>y\<close> of magnitude up to \<open>2 powi 1022\<close> it returns a value \<open>w\<close> from -0.5
  (included) to 0.5 (excluded), and applied to this already-wrapped value it returns
  \<open>w\<close> itself. A float64 in that range that is not a result of the wrap is
  returned as it is exactly when the sum of it and 0.5 is a float64, so that the
  addition does not round.
\<close>

theorem wrap64_idempotent:
  assumes "is_f64 y" "\<bar>y\<bar> \<le> 2 powi 1022"
  shows "(\<exists>w. wrap64 y = Some w \<and> wrap64 w = Some w \<and> - (1/2) \<le> w \<and> w < 1/2)
    \<and> (- (1/2) \<le> y \<and> y < 1/2 \<longrightarrow> (wrap64 y = Some y \<longleftrightarrow> is_f64 (y + 1/2)))"
proof -
  obtain w where w: "wrap64 y = Some w" using wrap64_total [OF assms] by blast
  have "wrap64 w = Some w" using assms(1) w by (rule wrap64_idem)
  moreover have "- (1/2) \<le> w" "w < 1/2" using wrap64_result [OF assms(1) w] by simp_all
  moreover have "is_f64 (y + 1/2)" if "wrap64 y = Some y"
    using wrap64_result [OF assms(1) that] by simp
  moreover have "wrap64 y = Some y" if "- (1/2) \<le> y" "y < 1/2" "is_f64 (y + 1/2)"
    using assms(1) that by (rule wrap64_exact)
  ultimately show ?thesis using w by blast
qed

theorem wrap64_idempotent_witness:
  "is_f64 (1/4) \<and> \<bar>1/4 :: real\<bar> \<le> 2 powi 1022 \<and> is_f64 (1/4 + 1/2)
   \<and> wrap64 (1/4) = Some (1/4)
   \<and> is_f64 (1/2 - 2 powi (- 54)) \<and> \<bar>1/2 - 2 powi (- 54) :: real\<bar> \<le> 2 powi 1022
   \<and> wrap64 (1/2 - 2 powi (- 54)) = Some (- (1/2))
   \<and> wrap64 (- (1/2)) = Some (- (1/2))"
proof -
  have q: "is_f64 (1/4)" "\<bar>1/4 :: real\<bar> \<le> 2 powi 1022" "is_f64 (1/4 + 1/2)"
    using is_f64_half by simp_all
  have b: "is_f64 (1/2 - 2 powi (- 54))" "\<bar>1/2 - 2 powi (- 54) :: real\<bar> \<le> 2 powi 1022"
    using is_f64_below_half by simp_all
  have "wrap64 (1/4) = Some (1/4)"
    using wrap64_idempotent [OF q(1,2)] q(3) by simp
  moreover have "wrap64 (- (1/2)) = Some (- (1/2))"
    using wrap64_idempotent [OF b] wrap64_below_half by auto
  ultimately show ?thesis using q b wrap64_below_half by simp
qed

text \<open>
  C9 as stated, for every value in the range, fails on float64: for the float64 next
  below 0.5, which is the difference 0.7 - 0.2, the sum with 0.5 rounds to 1 and the
  wrap returns -0.5.
\<close>

theorem wrap64_counterexample:
  "is_f64 (1/2 - 2 powi (- 54)) \<and> - (1/2) \<le> (1/2 - 2 powi (- 54) :: real)
   \<and> (1/2 - 2 powi (- 54) :: real) < 1/2
   \<and> wrap64 (1/2 - 2 powi (- 54)) = Some (- (1/2))
   \<and> wrap64 (1/2 - 2 powi (- 54)) \<noteq> Some (1/2 - 2 powi (- 54))"
  using is_f64_below_half wrap64_below_half by simp

section \<open>The script on structures with the same number of atoms\<close>

lemma broadcast_same: "length a = length b \<Longrightarrow> broadcast f a b = Inr (map2 f a b)"
  by (simp add: broadcast_def)

lemma read_poscar_holds:
  "holds fs (py_format p) s \<Longrightarrow> \<exists>sym. read_poscar fs p flag = Inr (s, sym)"
  by (auto simp: holds_def read_poscar_def Let_def)

lemma read_poscar_fails:
  "fs (py_format p) = None \<Longrightarrow> read_poscar fs p flag = Inl (FileError (py_format p))"
  by (simp add: read_poscar_def)

lemma displacement_same:
  "atoms t = atoms s \<Longrightarrow>
   displacement (frac_coords t) (frac_coords s) (lattice_matrix s) = Inr (displacements s t)"
proof -
  assume n: "atoms t = atoms s"
  have "np_dot (map wrap3 (map2 vsub (frac_coords t) (frac_coords s))) (lattice_matrix s)
        = displacements s t"
    using n by (intro nth_equalityI)
      (simp_all add: np_dot_def displacements_def delta_r_def min_image_def atoms_def)
  then show ?thesis
    using n by (simp add: displacement_def np_sub_def broadcast_same atoms_def)
qed

lemma length_displacements: "length (displacements s t) = atoms s"
  by (simp add: displacements_def)

lemma nth_displacements: "i < atoms s \<Longrightarrow> displacements s t ! i = delta_r s t i"
  by (simp add: displacements_def)

lemma delta_Q2_same:
  "length ms = length dr \<Longrightarrow>
   delta_Q2 nw ms dr = Inr (if nw then map vsquare dr else map2 vscale ms (map vsquare dr))"
  by (simp add: delta_Q2_def np_square_def np_mul_col_def broadcast_same)

lemma fractions_eq:
  "length dm = length dr \<Longrightarrow>
   map2 (\<lambda>x y. fdiv x (Some y))
     (map2 (\<lambda>x y. fdiv x (Some y)) (map Some (map2 dot3 dr dm)) (map norm3 dr))
     (map norm3 dr) = map2 fraction dr dm"
  by (rule nth_equalityI) (simp_all add: fraction_def)

lemma projection_same:
  "length dm = length dr \<Longrightarrow>
   projection nw ms dr dm =
     (if nw then Inr (np_average (map2 fraction dr dm))
      else np_average_weights (map2 fraction dr dm) (map np_sqrt ms))"
  by (simp add: projection_def einsum_rows_def broadcast_same linalg_norm_def np_divide_def
      fractions_eq Let_def del: map_map)

lemma norm3_sq: "(norm3 v)\<^sup>2 = vtotal (vsquare v)"
  by (cases v) simp

lemma vtotal_vscale: "vtotal (vscale m v) = m * vtotal v"
  by (cases v) (simp add: algebra_simps)

lemma sum_list_upt: "sum_list (map f [0..<n]) = (\<Sum>i<n. f i)"
  by (simp add: interv_sum_list_conv_sum_set_nat atLeast0LessThan)

lemma np_sum_unweighted:
  "np_sum (map vsquare (displacements s t)) = (\<Sum>i<atoms s. (norm3 (delta_r s t i))\<^sup>2)"
  by (simp add: np_sum_def displacements_def comp_def norm3_sq sum_list_upt)

lemma weighted_rows:
  "well_formed s \<Longrightarrow>
   map2 vscale (masses_of am s) (map vsquare (displacements s t))
   = map (\<lambda>i. vscale (mass am s i) (vsquare (delta_r s t i))) [0..<atoms s]"
  by (rule nth_equalityI)
    (simp_all add: well_formed_def masses_of_def displacements_def atoms_def mass_def)

lemma np_sum_weighted:
  "well_formed s \<Longrightarrow>
   np_sum (map2 vscale (masses_of am s) (map vsquare (displacements s t)))
   = (\<Sum>i<atoms s. mass am s i * (norm3 (delta_r s t i))\<^sup>2)"
  by (simp add: weighted_rows np_sum_def comp_def vtotal_vscale norm3_sq sum_list_upt)

lemma main_two:
  assumes "holds fs (init a) s" "holds fs (fin a) t" "atoms t = atoms s" "well_formed s"
  shows "main am fs a =
    (let delta_Q = np_sqrt (total (no_weight a) am s t);
         out = [Print ''Delta Q:'' delta_Q] in
     if med a \<noteq> Some ''unassigned'' then
       (case read_poscar fs (med a) False of
          Inl e \<Rightarrow> (out, Some e)
        | Inr (struct_m, _) \<Rightarrow>
       (case displacement (frac_coords struct_m) (frac_coords s) (lattice_matrix s) of
          Inl e \<Rightarrow> (out, Some e)
        | Inr delta_M \<Rightarrow>
       (case projection (no_weight a) (masses_of am s) (displacements s t) delta_M of
          Inl e \<Rightarrow> (out, Some e)
        | Inr res \<Rightarrow>
            (out @ [Print ''Projected delta Q:'' (fmul delta_Q res),
                    Print ''Fractional displacement:'' res], None))))
     else (out, None))"
proof -
  obtain sym1 where r1: "read_poscar fs (Some (init a)) False = Inr (s, sym1)"
    using read_poscar_holds [of fs "Some (init a)" s False] assms(1)
    by (auto simp: py_format_def)
  obtain sym2 where r2: "read_poscar fs (Some (fin a)) True = Inr (t, sym2)"
    using read_poscar_holds [of fs "Some (fin a)" t True] assms(2)
    by (auto simp: py_format_def)
  have len: "length (masses_of am s) = length (displacements s t)"
    using assms(4) by (simp add: masses_of_def well_formed_def length_displacements atoms_def)
  have dq: "delta_Q2 (no_weight a) (masses_of am s) (displacements s t) =
      Inr (if no_weight a then map vsquare (displacements s t)
           else map2 vscale (masses_of am s) (map vsquare (displacements s t)))"
    using len by (rule delta_Q2_same)
  have tot: "np_sum (if no_weight a then map vsquare (displacements s t)
           else map2 vscale (masses_of am s) (map vsquare (displacements s t)))
      = total (no_weight a) am s t"
    using assms(4) by (simp add: total_def np_sum_unweighted np_sum_weighted)
  show ?thesis
    unfolding main_def r1 r2
    by (simp only: sum.case prod.case Let_def displacement_same [OF assms(3)]
        masses_of_def [symmetric] dq tot)
qed

lemma main_first_line:
  assumes "holds fs (init a) s" "holds fs (fin a) t" "atoms t = atoms s" "well_formed s"
  shows "\<exists>rest. fst (main am fs a)
           = Print ''Delta Q:'' (np_sqrt (total (no_weight a) am s t)) # rest"
  unfolding main_two [OF assms]
  by (simp add: Let_def split: sum.splits prod.splits)

lemma total_nonneg:
  "nw \<or> (\<forall>i<atoms s. 0 \<le> mass am s i) \<Longrightarrow> 0 \<le> total nw am s t"
  by (auto simp: total_def intro!: sum_nonneg)

lemma spec_delta_Q_total: "spec_delta_Q nw am s t = sqrt (total nw am s t)"
  by (simp add: spec_delta_Q_def total_def)

lemma min_image_same: "min_image l v v = (0, 0, 0)"
  by (cases v, cases l) (auto simp: min_image_def wrap_zero)

lemma total_same_coords:
  "frac_coords t = frac_coords s \<Longrightarrow> total nw am s t = 0"
  by (simp add: total_def delta_r_def min_image_same)

lemma read_relattice:
  "read_poscar (relattice ls fs) p flag =
     (case ls (py_format p) of
        None \<Rightarrow> read_poscar fs p flag
      | Some l \<Rightarrow>
          (case read_poscar fs p flag of
             Inl e \<Rightarrow> Inl e
           | Inr (s, names) \<Rightarrow> Inr (s\<lparr>lattice_matrix := l\<rparr>, names)))"
  by (simp add: read_poscar_def relattice_def with_lattice_def Let_def
      split: option.splits)

section \<open>The projection of the medium structure\<close>

lemma fsum_Nil: "fsum [] = Some 0"
  by (simp add: fsum_def)
lemma fsum_Cons: "fsum (x # xs) = fadd x (fsum xs)"
  by (simp add: fsum_def)

lemma fsum_Some: "fsum (map Some xs) = Some (sum_list xs)"
  by (induction xs) (simp_all add: fsum_Nil fsum_Cons)

lemma fadd_None_right: "fadd x None = None"
  by (cases x) simp_all

lemma fsum_None: "None \<in> set xs \<Longrightarrow> fsum xs = None"
  by (induction xs) (auto simp: fsum_Cons fadd_None_right)

lemma fractions_same:
  "atoms t = atoms s \<Longrightarrow> atoms m = atoms s \<Longrightarrow>
   map2 fraction (displacements s t) (displacements s m) = fractions s t m"
  by (rule nth_equalityI) (simp_all add: fractions_def displacements_def)

lemma displacement_medium:
  "atoms m = atoms s \<Longrightarrow>
   displacement (frac_coords m) (frac_coords s) (lattice_matrix s) = Inr (displacements s m)"
  by (rule displacement_same)

lemma main_three:
  assumes "holds fs (init a) s" "holds fs (fin a) t" "holds fs (py_format (med a)) m"
    and "med a \<noteq> Some ''unassigned''"
    and "atoms t = atoms s" "atoms m = atoms s" "well_formed s"
  shows "main am fs a =
    (let delta_Q = np_sqrt (total (no_weight a) am s t);
         out = [Print ''Delta Q:'' delta_Q] in
     case (if no_weight a then Inr (np_average (fractions s t m))
           else np_average_weights (fractions s t m) (map np_sqrt (masses_of am s))) of
       Inl e \<Rightarrow> (out, Some e)
     | Inr res \<Rightarrow>
         (out @ [Print ''Projected delta Q:'' (fmul delta_Q res),
                 Print ''Fractional displacement:'' res], None))"
proof -
  obtain names where r: "read_poscar fs (med a) False = Inr (m, names)"
    using read_poscar_holds [OF assms(3)] by blast
  have len: "length (displacements s m) = length (displacements s t)"
    by (simp add: length_displacements)
  show ?thesis
    unfolding main_two [OF assms(1,2,5,7)]
    using assms(4)
    by (simp add: r displacement_medium [OF assms(6)] projection_same [OF len]
        fractions_same [OF assms(5,6)] Let_def)
qed

lemma fraction_regular: "norm3 dr \<noteq> 0 \<Longrightarrow> fraction dr dm = Some (spec_fraction dr dm)"
  by (cases dr, cases dm) (simp add: fraction_def spec_fraction_def mult.commute)

lemma fraction_zero: "norm3 dr = 0 \<Longrightarrow> fraction dr dm = None"
  by (simp add: fraction_def)

lemma np_average_Some:
  "xs \<noteq> [] \<Longrightarrow> np_average (map Some xs) = Some (sum_list xs / real (length xs))"
  by (simp add: np_average_def fsum_Some)

lemma np_average_None: "None \<in> set xs \<Longrightarrow> np_average xs = None"
  by (simp add: np_average_def fsum_None)

lemma sqrt_masses:
  assumes "well_formed s" "\<forall>i<atoms s. 0 \<le> mass am s i"
  shows "map np_sqrt (masses_of am s) = map Some (map (\<lambda>i. sqrt (mass am s i)) [0..<atoms s])"
  using assms
  by (intro nth_equalityI)
    (auto simp: masses_of_def well_formed_def atoms_def mass_def np_sqrt_def not_less)

lemma fmul_Some_rows:
  "length xs = length ws \<Longrightarrow>
   map2 fmul (map Some xs) (map Some ws) = map Some (map2 (*) xs ws)"
  by (rule nth_equalityI) simp_all

lemma np_average_weights_Some:
  assumes "length xs = length ws" "sum_list ws \<noteq> 0"
  shows "np_average_weights (map Some xs) (map Some ws)
         = Inr (Some (sum_list (map2 (*) xs ws) / sum_list ws))"
proof -
  have "fsum (map2 fmul (map Some xs) (map Some ws)) = Some (sum_list (map2 (*) xs ws))"
    by (simp only: fmul_Some_rows [OF assms(1)] fsum_Some)
  then show ?thesis
    using assms by (simp add: np_average_weights_def fsum_Some Let_def del: map_map)
qed

lemma np_average_weights_None:
  assumes "length xs = length ws" "sum_list ws \<noteq> 0" "i < length xs" "xs ! i = None"
  shows "np_average_weights xs (map Some ws) = Inr None"
proof -
  have "map2 fmul xs (map Some ws) ! i = None"
    using assms by simp
  then have "None \<in> set (map2 fmul xs (map Some ws))"
    using assms(1,3) by (metis length_map length_zip min.idem nth_mem)
  then have "fsum (map2 fmul xs (map Some ws)) = None" by (rule fsum_None)
  then show ?thesis
    using assms(1,2) by (simp add: np_average_weights_def fsum_Some Let_def)
qed

lemma weights_positive:
  assumes "0 < atoms s" "\<forall>i<atoms s. 0 < mass am s i"
  shows "0 < (\<Sum>i<atoms s. sqrt (mass am s i))"
  using assms by (intro sum_pos) auto

lemma fractions_regular:
  assumes "\<forall>i<atoms s. norm3 (delta_r s t i) \<noteq> 0"
  shows "fractions s t m
         = map Some (map (\<lambda>i. spec_fraction (delta_r s t i) (delta_r s m i)) [0..<atoms s])"
  using assms by (intro nth_equalityI) (simp_all add: fractions_def fraction_regular)

lemma map2_upt: "map2 g (map f [0..<n]) (map w [0..<n]) = map (\<lambda>i. g (f i) (w i)) [0..<n]"
  by (rule nth_equalityI) simp_all

lemma average_regular:
  assumes "well_formed s" "0 < atoms s" "\<forall>i<atoms s. norm3 (delta_r s t i) \<noteq> 0"
    and "nw \<or> (\<forall>i<atoms s. 0 < mass am s i)"
  shows "(if nw then Inr (np_average (fractions s t m))
          else np_average_weights (fractions s t m) (map np_sqrt (masses_of am s)))
         = Inr (Some (spec_average nw am s t m))"
proof (cases nw)
  case True
  have "[0..<atoms s] \<noteq> []" using assms(2) by simp
  then show ?thesis
    using True
    by (simp add: fractions_regular [OF assms(3)] np_average_Some sum_list_upt
        spec_average_def del: map_map)
next
  case False
  then have pos: "\<forall>i<atoms s. 0 < mass am s i" using assms(4) by simp
  then have nonneg: "\<forall>i<atoms s. 0 \<le> mass am s i" by (simp add: less_imp_le)
  have w: "sum_list (map (\<lambda>i. sqrt (mass am s i)) [0..<atoms s]) \<noteq> 0"
    using weights_positive [OF assms(2) pos] by (simp add: sum_list_upt)
  have "np_average_weights (fractions s t m) (map np_sqrt (masses_of am s))
        = Inr (Some (sum_list (map2 (*)
              (map (\<lambda>i. spec_fraction (delta_r s t i) (delta_r s m i)) [0..<atoms s])
              (map (\<lambda>i. sqrt (mass am s i)) [0..<atoms s]))
            / sum_list (map (\<lambda>i. sqrt (mass am s i)) [0..<atoms s])))"
    unfolding fractions_regular [OF assms(3)] sqrt_masses [OF assms(1) nonneg]
    by (rule np_average_weights_Some) (simp_all add: w)
  then show ?thesis
    using False
    by (simp add: map2_upt sum_list_upt spec_average_def mult.commute)
qed

lemma main_regular:
  assumes "holds fs (init a) s" "holds fs (fin a) t" "holds fs (py_format (med a)) m"
    and "med a \<noteq> Some ''unassigned''"
    and "atoms t = atoms s" "atoms m = atoms s" "well_formed s"
    and "0 < atoms s" "\<forall>i<atoms s. norm3 (delta_r s t i) \<noteq> 0"
    and "no_weight a \<or> (\<forall>i<atoms s. 0 < mass am s i)"
  shows "main am fs a =
    ([Print ''Delta Q:'' (Some (spec_delta_Q (no_weight a) am s t)),
      Print ''Projected delta Q:''
        (Some (spec_delta_Q (no_weight a) am s t * spec_average (no_weight a) am s t m)),
      Print ''Fractional displacement:'' (Some (spec_average (no_weight a) am s t m))],
     None)"
proof -
  have "no_weight a \<or> (\<forall>i<atoms s. 0 \<le> mass am s i)"
    using assms(10) by (auto simp: less_imp_le)
  then have dq: "np_sqrt (total (no_weight a) am s t)
      = Some (spec_delta_Q (no_weight a) am s t)"
    using total_nonneg [of "no_weight a" s am t] by (simp add: np_sqrt_def spec_delta_Q_total)
  show ?thesis
    unfolding main_three [OF assms(1-7)] average_regular [OF assms(7-10)] dq
    by (simp add: Let_def)
qed

lemma average_singular:
  assumes "well_formed s" "i < atoms s" "norm3 (delta_r s t i) = 0"
    and "nw \<or> (\<forall>i<atoms s. 0 < mass am s i)"
  shows "fractions s t m ! i = None"
    and "(if nw then Inr (np_average (fractions s t m))
          else np_average_weights (fractions s t m) (map np_sqrt (masses_of am s)))
         = Inr None"
proof -
  show none: "fractions s t m ! i = None"
    using assms(2,3) by (simp add: fractions_def fraction_zero)
  have len: "length (fractions s t m) = atoms s" by (simp add: fractions_def)
  then have mem: "None \<in> set (fractions s t m)"
    using none assms(2) by (metis nth_mem)
  show "(if nw then Inr (np_average (fractions s t m))
          else np_average_weights (fractions s t m) (map np_sqrt (masses_of am s)))
         = Inr None"
  proof (cases nw)
    case True
    then show ?thesis by (simp add: np_average_None [OF mem])
  next
    case False
    then have pos: "\<forall>i<atoms s. 0 < mass am s i" using assms(4) by simp
    then have nonneg: "\<forall>i<atoms s. 0 \<le> mass am s i" by (simp add: less_imp_le)
    have "0 < atoms s" using assms(2) by simp
    then have w: "sum_list (map (\<lambda>i. sqrt (mass am s i)) [0..<atoms s]) \<noteq> 0"
      using weights_positive [OF _ pos] by (simp add: sum_list_upt)
    have "np_average_weights (fractions s t m)
            (map Some (map (\<lambda>i. sqrt (mass am s i)) [0..<atoms s])) = Inr None"
      using w assms(2) none by (intro np_average_weights_None [of _ _ i]) (simp_all add: len)
    then show ?thesis
      using False by (simp only: sqrt_masses [OF assms(1) nonneg] if_False)
  qed
qed

lemma main_singular:
  assumes "holds fs (init a) s" "holds fs (fin a) t" "holds fs (py_format (med a)) m"
    and "med a \<noteq> Some ''unassigned''"
    and "atoms t = atoms s" "atoms m = atoms s" "well_formed s"
    and "i < atoms s" "norm3 (delta_r s t i) = 0"
    and "no_weight a \<or> (\<forall>i<atoms s. 0 < mass am s i)"
  shows "main am fs a =
    ([Print ''Delta Q:'' (Some (spec_delta_Q (no_weight a) am s t)),
      Print ''Projected delta Q:'' None,
      Print ''Fractional displacement:'' None], None)"
proof -
  have "no_weight a \<or> (\<forall>i<atoms s. 0 \<le> mass am s i)"
    using assms(10) by (auto simp: less_imp_le)
  then have dq: "np_sqrt (total (no_weight a) am s t)
      = Some (spec_delta_Q (no_weight a) am s t)"
    using total_nonneg [of "no_weight a" s am t] by (simp add: np_sqrt_def spec_delta_Q_total)
  show ?thesis
    unfolding main_three [OF assms(1-7)] average_singular(2) [OF assms(7-10)] dq
    by (simp add: Let_def)
qed














section \<open>Runs of the examples\<close>

lemmas run_defs =
  main_def read_poscar_def py_format_def displacement_def np_sub_def broadcast_def np_dot_def
  delta_Q2_def np_square_def np_mul_col_def np_sum_def np_sqrt_def projection_def
  einsum_rows_def linalg_norm_def np_divide_def np_average_def np_average_weights_def
  fsum_def wrap_alt Let_def

lemma sqrt12: "sqrt 12 + 1 \<noteq> 0"
proof -
  have "0 \<le> sqrt 12" by simp
  then show ?thesis by linarith
qed

lemma run_A: "main ex_mass ex_fs default_args = ([Print ''Delta Q:'' (Some (sqrt 12))], None)"
  by (simp add: run_defs ex_files ex_structs ex_mass_def)

lemma run_B:
  "main ex_mass ex_fs (default_args\<lparr>no_weight := True\<rparr>) = ([Print ''Delta Q:'' (Some 1)], None)"
  by (simp add: run_defs ex_files ex_structs ex_mass_def)

lemma run_same:
  "main ex_mass ex_fs (default_args\<lparr>fin := ''./POSCAR_i''\<rparr>)
   = ([Print ''Delta Q:'' (Some 0)], None)"
  by (simp add: run_defs ex_files ex_structs ex_mass_def)

lemma run_m:
  "main ex_mass ex_fs (default_args\<lparr>fin := ''./POSCAR_g'', med := Some ''./POSCAR_m''\<rparr>)
   = ([Print ''Delta Q:'' (Some 4),
       Print ''Projected delta Q:'' (Some (4 * ((sqrt 12 / 2 + 1 / 4) / (sqrt 12 + 1)))),
       Print ''Fractional displacement:'' (Some ((sqrt 12 / 2 + 1 / 4) / (sqrt 12 + 1)))], None)"
  by (simp add: run_defs ex_files ex_structs ex_mass_def sqrt12)

lemma run_m_nw:
  "main ex_mass ex_fs
     (default_args\<lparr>fin := ''./POSCAR_g'', med := Some ''./POSCAR_m'', no_weight := True\<rparr>)
   = ([Print ''Delta Q:'' (Some (sqrt 5)),
       Print ''Projected delta Q:'' (Some (sqrt 5 * (3 / 8))),
       Print ''Fractional displacement:'' (Some (3 / 8))], None)"
  by (simp add: run_defs ex_files ex_structs ex_mass_def)

lemma ex_holds:
  "holds ex_fs ''./POSCAR_i'' ex_i" "holds ex_fs ''./POSCAR_f'' ex_f"
  "holds ex_fs ''./POSCAR_g'' ex_g" "holds ex_fs ''./POSCAR_m'' ex_m"
  "holds ex_fs ''./POSCAR_h'' ex_h" "holds ex_fs ''./POSCAR_k'' ex_k"
  by (simp_all add: holds_def ex_files)

lemma run_k:
  "main ex_mass ex_fs (default_args\<lparr>med := Some ''./POSCAR_k''\<rparr>)
   = ([Print ''Delta Q:'' (Some (sqrt 12)), Print ''Projected delta Q:'' None,
       Print ''Fractional displacement:'' None], None)"
  by (simp add: run_defs ex_files ex_structs ex_mass_def sqrt12)

lemma run_k_nw:
  "main ex_mass ex_fs (default_args\<lparr>med := Some ''./POSCAR_k'', no_weight := True\<rparr>)
   = ([Print ''Delta Q:'' (Some 1), Print ''Projected delta Q:'' None,
       Print ''Fractional displacement:'' None], None)"
  by (simp add: run_defs ex_files ex_structs ex_mass_def sqrt12)







lemma ex_atoms:
  "atoms ex_i = Suc (Suc 0)" "atoms ex_f = Suc (Suc 0)" "atoms ex_g = Suc (Suc 0)"
  "atoms ex_m = Suc (Suc 0)" "atoms ex_h = Suc (Suc 0)" "atoms ex_k = Suc (Suc 0)"
  "well_formed ex_i" "well_formed ex_f"
  by (simp_all add: atoms_def well_formed_def ex_structs)

lemma ex_masses: "mass ex_mass ex_i 0 = 12" "mass ex_mass ex_i (Suc 0) = 1"
  "mass ex_mass ex_f 0 = 12" "mass ex_mass ex_f (Suc 0) = 1"
  by (simp_all add: mass_def ex_structs ex_mass_def)

lemma all_less_2: "(\<forall>i<Suc (Suc 0). P i) \<longleftrightarrow> P 0 \<and> P (Suc 0)"
  by (auto simp: less_Suc_eq)

lemma ex_delta_r:
  "delta_r ex_i ex_f 0 = (1, 0, 0)" "delta_r ex_i ex_f (Suc 0) = (0, 0, 0)"
  "delta_r ex_i ex_g 0 = (1, 0, 0)" "delta_r ex_i ex_g (Suc 0) = (0, 2, 0)"
  "delta_r ex_i ex_m 0 = (1/2, 0, 0)" "delta_r ex_i ex_m (Suc 0) = (0, 1/2, 0)"
  "delta_r ex_i ex_h 0 = (1/2, 0, 0)" "delta_r ex_i ex_h (Suc 0) = (0, 1, 0)"
  "delta_r ex_i ex_k 0 = (1/2, 0, 0)" "delta_r ex_i ex_k (Suc 0) = (0, 0, 0)"
  by (simp_all add: delta_r_def min_image_def ex_structs wrap_alt)




section \<open>Delta Q\<close>

text \<open>
  C1. For two structures with the same number of atoms, the printed delta Q is the
  square root of the sum over the atoms of the mass times the squared length of the
  minimum-image Cartesian displacement when mass weighting is on (the default), and the
  square root of the sum of the squared lengths with \<open>--no_weight\<close>; the result is a
  non-negative number. The masses of the periodic table are not negative.
\<close>

theorem delta_Q_formula:
  assumes "holds fs (init a) s" "holds fs (fin a) t" "atoms t = atoms s" "well_formed s"
    and "no_weight a \<or> (\<forall>i<atoms s. 0 \<le> mass am s i)"
  shows "(\<exists>rest. fst (main am fs a)
            = Print ''Delta Q:'' (Some (spec_delta_Q (no_weight a) am s t)) # rest)
         \<and> 0 \<le> spec_delta_Q (no_weight a) am s t"
  using main_first_line [OF assms(1-4), of am] total_nonneg [OF assms(5), of t]
  by (simp add: spec_delta_Q_total np_sqrt_def)

theorem delta_Q_formula_witness:
  "holds ex_fs (init default_args) ex_i \<and> holds ex_fs (fin default_args) ex_f
   \<and> atoms ex_f = atoms ex_i \<and> well_formed ex_i \<and> atoms ex_i = 2
   \<and> \<not> no_weight default_args \<and> 0 \<le> mass ex_mass ex_i 0 \<and> 0 \<le> mass ex_mass ex_i 1
   \<and> spec_delta_Q (no_weight default_args) ex_mass ex_i ex_f = sqrt 12
   \<and> fst (main ex_mass ex_fs default_args) = [Print ''Delta Q:'' (Some (sqrt 12))]"
  using delta_Q_formula [of ex_fs default_args ex_i ex_f ex_mass] ex_holds(1,2) run_A
  by (simp add: default_args_def atoms_def well_formed_def mass_def ex_structs ex_mass_def
      less_Suc_eq numeral_2_eq_2)

text \<open>
  C7. When the initial and the final structure have the same fractional coordinates,
  delta Q is exactly 0, with mass weighting and without.
\<close>

theorem identical_structures_delta_Q_zero:
  assumes "holds fs (init a) s" "holds fs (fin a) t" "frac_coords t = frac_coords s"
    and "well_formed s"
  shows "\<exists>rest. fst (main am fs a) = Print ''Delta Q:'' (Some 0) # rest"
proof -
  have "atoms t = atoms s" using assms(3) by (simp add: atoms_def)
  from main_first_line [OF assms(1,2) this assms(4), of am] show ?thesis
    by (simp add: total_same_coords [OF assms(3)] np_sqrt_def)
qed

theorem identical_structures_delta_Q_zero_witness:
  "holds ex_fs ''./POSCAR_i'' ex_i \<and> well_formed ex_i
   \<and> fst (main ex_mass ex_fs (default_args\<lparr>fin := ''./POSCAR_i''\<rparr>))
       = [Print ''Delta Q:'' (Some 0)]"
  using identical_structures_delta_Q_zero
    [of ex_fs "default_args\<lparr>fin := ''./POSCAR_i''\<rparr>" ex_i ex_i ex_mass]
    ex_holds(1) run_same
  by (simp add: default_args_def well_formed_def ex_structs)

section \<open>The lines of the output\<close>

text \<open>
  C8. The projection of the medium structure is done exactly when \<open>--med\<close> is not the
  string \<open>unassigned\<close>, its default. A run that ends without an exception has then
  printed three lines, delta Q, the projected delta Q (delta Q times the fractional
  displacement) and the fractional displacement, in this order; otherwise it has printed
  the line of delta Q alone.
\<close>

theorem output_lines:
  "snd (main am fs a) = None \<Longrightarrow>
   (if med a \<noteq> Some ''unassigned''
    then \<exists>dq r. fst (main am fs a)
           = [Print ''Delta Q:'' dq, Print ''Projected delta Q:'' (fmul dq r),
              Print ''Fractional displacement:'' r]
    else \<exists>dq. fst (main am fs a) = [Print ''Delta Q:'' dq])"
  by (auto simp: main_def Let_def split: sum.splits prod.splits if_splits)

theorem output_lines_witness:
  "med default_args = Some ''unassigned''
   \<and> main ex_mass ex_fs default_args = ([Print ''Delta Q:'' (Some (sqrt 12))], None)
   \<and> main ex_mass ex_fs
       (default_args\<lparr>fin := ''./POSCAR_g'', med := Some ''./POSCAR_m'', no_weight := True\<rparr>)
     = ([Print ''Delta Q:'' (Some (sqrt 5)),
         Print ''Projected delta Q:'' (fmul (Some (sqrt 5)) (Some (3 / 8))),
         Print ''Fractional displacement:'' (Some (3 / 8))], None)"
  using output_lines [of ex_mass ex_fs default_args]
    output_lines [of ex_mass ex_fs
      "default_args\<lparr>fin := ''./POSCAR_g'', med := Some ''./POSCAR_m'', no_weight := True\<rparr>"]
    run_A run_m_nw
  by (simp add: default_args_def)

section \<open>The lattice\<close>

text \<open>
  C10. Every conversion from fractional to Cartesian coordinates uses the lattice of the
  initial structure. The lattices of the other files are not read: when any files but
  the initial one are given other lattices, the run prints the same lines and ends the
  same way.
\<close>

theorem lattice_of_initial_only:
  assumes "ls (init a) = None"
  shows "main am (relattice ls fs) a = main am fs a"
  using assms
  by (simp add: main_def read_relattice py_format_def Let_def
      split: option.splits sum.splits prod.splits)

theorem lattice_of_initial_only_witness:
  "[''./POSCAR_g'' \<mapsto> cubic 20, ''./POSCAR_m'' \<mapsto> sheared] ''./POSCAR_i'' = None
   \<and> map_option (lattice_matrix \<circ> struct_of)
        (relattice [''./POSCAR_g'' \<mapsto> cubic 20, ''./POSCAR_m'' \<mapsto> sheared] ex_fs
           ''./POSCAR_g'') = Some (cubic 20)
   \<and> main ex_mass (relattice [''./POSCAR_g'' \<mapsto> cubic 20, ''./POSCAR_m'' \<mapsto> sheared] ex_fs)
        (default_args\<lparr>fin := ''./POSCAR_g'', med := Some ''./POSCAR_m'', no_weight := True\<rparr>)
     = ([Print ''Delta Q:'' (Some (sqrt 5)),
         Print ''Projected delta Q:'' (Some (sqrt 5 * (3 / 8))),
         Print ''Fractional displacement:'' (Some (3 / 8))], None)"
  using lattice_of_initial_only
    [of "[''./POSCAR_g'' \<mapsto> cubic 20, ''./POSCAR_m'' \<mapsto> sheared]"
      "default_args\<lparr>fin := ''./POSCAR_g'', med := Some ''./POSCAR_m'', no_weight := True\<rparr>"
      ex_mass ex_fs]
    run_m_nw
  by (simp add: default_args_def relattice_def with_lattice_def ex_files)

section \<open>The fractional displacement\<close>

text \<open>
  C2. With a medium structure, the value of an atom is the dot product of its
  displacement to the medium structure with its displacement to the final structure,
  divided by the length of the latter and divided by that length again. The fractional
  displacement that is printed is the arithmetic mean of these values with
  \<open>--no_weight\<close>, and their mean with the square roots of the masses as weights
  otherwise; the projected delta Q that is printed is delta Q times that mean. This is
  the case of at least one atom, no atom with a path of length zero, and positive masses.
\<close>

theorem projection_formula:
  assumes "holds fs (init a) s" "holds fs (fin a) t" "holds fs (py_format (med a)) m"
    and "med a \<noteq> Some ''unassigned''"
    and "atoms t = atoms s" "atoms m = atoms s" "well_formed s"
    and "0 < atoms s" "\<forall>i<atoms s. norm3 (delta_r s t i) \<noteq> 0"
    and "no_weight a \<or> (\<forall>i<atoms s. 0 < mass am s i)"
  shows "main am fs a =
    ([Print ''Delta Q:'' (Some (spec_delta_Q (no_weight a) am s t)),
      Print ''Projected delta Q:''
        (Some (spec_delta_Q (no_weight a) am s t * spec_average (no_weight a) am s t m)),
      Print ''Fractional displacement:'' (Some (spec_average (no_weight a) am s t m))],
     None)
    \<and> (\<forall>i<atoms s. fractions s t m ! i
          = Some (dot3 (delta_r s m i) (delta_r s t i) / norm3 (delta_r s t i)
                  / norm3 (delta_r s t i)))"
  using main_regular [OF assms] assms(9)
  by (simp add: fractions_def fraction_regular spec_fraction_def)

theorem projection_formula_witness:
  "holds ex_fs ''./POSCAR_i'' ex_i \<and> holds ex_fs ''./POSCAR_g'' ex_g
   \<and> holds ex_fs ''./POSCAR_m'' ex_m \<and> atoms ex_i = 2 \<and> atoms ex_g = 2 \<and> atoms ex_m = 2
   \<and> norm3 (delta_r ex_i ex_g 0) = 1 \<and> norm3 (delta_r ex_i ex_g 1) = 2
   \<and> 0 < mass ex_mass ex_i 0 \<and> 0 < mass ex_mass ex_i 1
   \<and> fractions ex_i ex_g ex_m = [Some (1/2), Some (1/4)]
   \<and> spec_average True ex_mass ex_i ex_g ex_m = 3 / 8
   \<and> main ex_mass ex_fs
       (default_args\<lparr>fin := ''./POSCAR_g'', med := Some ''./POSCAR_m'', no_weight := True\<rparr>)
     = ([Print ''Delta Q:'' (Some (sqrt 5)),
         Print ''Projected delta Q:'' (Some (sqrt 5 * (3 / 8))),
         Print ''Fractional displacement:'' (Some (3 / 8))], None)
   \<and> spec_average False ex_mass ex_i ex_g ex_m = (sqrt 12 / 2 + 1 / 4) / (sqrt 12 + 1)
   \<and> main ex_mass ex_fs (default_args\<lparr>fin := ''./POSCAR_g'', med := Some ''./POSCAR_m''\<rparr>)
     = ([Print ''Delta Q:'' (Some 4),
         Print ''Projected delta Q:'' (Some (4 * ((sqrt 12 / 2 + 1 / 4) / (sqrt 12 + 1)))),
         Print ''Fractional displacement:'' (Some ((sqrt 12 / 2 + 1 / 4) / (sqrt 12 + 1)))],
        None)"
  using projection_formula [of ex_fs
      "default_args\<lparr>fin := ''./POSCAR_g'', med := Some ''./POSCAR_m'', no_weight := True\<rparr>"
      ex_i ex_g ex_m ex_mass]
    projection_formula [of ex_fs
      "default_args\<lparr>fin := ''./POSCAR_g'', med := Some ''./POSCAR_m''\<rparr>"
      ex_i ex_g ex_m ex_mass]
    ex_holds run_m_nw run_m
  by (simp add: default_args_def py_format_def ex_atoms ex_delta_r ex_masses all_less_2
      spec_average_def spec_fraction_def fractions_def fraction_def numeral_2_eq_2)

text \<open>
  C4. When the path of some atom from the initial to the final structure has length
  zero, the division of line 59 divides by zero: nothing guards it, the value of the atom
  is not finite, and so are the fractional displacement and the projected delta Q that
  are printed.
\<close>

theorem zero_path_division:
  assumes "holds fs (init a) s" "holds fs (fin a) t" "holds fs (py_format (med a)) m"
    and "med a \<noteq> Some ''unassigned''"
    and "atoms t = atoms s" "atoms m = atoms s" "well_formed s"
    and "i < atoms s" "norm3 (delta_r s t i) = 0"
    and "no_weight a \<or> (\<forall>i<atoms s. 0 < mass am s i)"
  shows "fdiv (Some (dot3 (delta_r s t i) (delta_r s m i))) (Some (norm3 (delta_r s t i)))
           = None
    \<and> fractions s t m ! i = None
    \<and> main am fs a =
        ([Print ''Delta Q:'' (Some (spec_delta_Q (no_weight a) am s t)),
          Print ''Projected delta Q:'' None,
          Print ''Fractional displacement:'' None], None)"
  using main_singular [OF assms] average_singular(1) [OF assms(7-10)] assms(9)
  by simp

theorem zero_path_division_witness:
  "holds ex_fs ''./POSCAR_i'' ex_i \<and> holds ex_fs ''./POSCAR_f'' ex_f
   \<and> holds ex_fs ''./POSCAR_k'' ex_k \<and> atoms ex_i = 2 \<and> atoms ex_f = 2 \<and> atoms ex_k = 2
   \<and> norm3 (delta_r ex_i ex_f 1) = 0
   \<and> 0 < mass ex_mass ex_i 0 \<and> 0 < mass ex_mass ex_i 1
   \<and> fractions ex_i ex_f ex_k ! 1 = None
   \<and> main ex_mass ex_fs (default_args\<lparr>med := Some ''./POSCAR_k''\<rparr>)
     = ([Print ''Delta Q:'' (Some (sqrt 12)), Print ''Projected delta Q:'' None,
         Print ''Fractional displacement:'' None], None)"
  using zero_path_division [of ex_fs "default_args\<lparr>med := Some ''./POSCAR_k''\<rparr>"
      ex_i ex_f ex_k 1 ex_mass]
    ex_holds run_k
  by (simp add: default_args_def py_format_def ex_atoms ex_delta_r ex_masses all_less_2)




section \<open>Exchanging the initial and the final structure\<close>




end
